theory Spec2Isabelle
  imports Main "HOL-Library.Word" "HOL-Library.Monad_Syntax"
begin

unbundle bit_operations_syntax

section \<open>Data model\<close>

text \<open>
  The development embeds the explicit-synchronisation adapter of
  \<^verbatim>\<open>src/protocols/DRMSyncobj.cpp\<close> and the attach and commit handlers of
  \<^verbatim>\<open>src/protocols/core/Compositor.cpp\<close>.

  Objects that the code reaches through pointers are numbered. A weak pointer to a timeline
  resource is \<open>nat option\<close>: \<open>None\<close> is the empty pointer, \<open>Some r\<close> points to resource \<open>r\<close>
  and is expired once \<open>r\<close> has left the table of live resources. A function of the model
  returns \<open>'a option\<close> when the C++ can dereference a null pointer: \<open>None\<close> is that
  dereference, \<open>Some\<close> a normal return.
\<close>

type_synonym u64 = "64 word"
type_synonym u32 = "32 word"
type_synonym box = "int \<times> int \<times> int \<times> int"

text \<open>
  The three closures that the code hands to a timeline or to the event loop, by the weak
  pointer to a queued state that they capture: the adapter's acquire waiter
  (DRMSyncobj.cpp:150), the surface's \<open>whenReadable\<close> (Compositor.cpp:139), and a callback
  that some other surface or client registered on a timeline it shares.
\<close>

datatype waiter = AcquireWaiter nat | WhenReadable nat | Foreign nat

text \<open>
  Modelled from the spec: \<open>CSyncTimeline\<close> (helpers/sync/SyncTimeline) is not in src. The spec
  gives its contract: add a waiter for a value, signal a value, export a value as a
  pollable handle, remove all waiters. The record keeps the registered waiters in
  registration order and, per value, the handle that an export yields (\<open>None\<close> is an
  invalid file descriptor).
\<close>

record CSyncTimeline =
  tl_waiters :: "(u64 \<times> waiter) list"
  tl_syncFile :: "u64 \<Rightarrow> nat option"

text \<open>
  \<open>CDRMSyncobjTimelineResource\<close>: its \<open>timeline\<close> member is null when the import of the
  client's file descriptor failed (DRMSyncobj.cpp:216-221). The timeline lives and dies with
  its resource (spec, section 5).
\<close>

record CDRMSyncobjTimelineResource =
  res_timeline :: "CSyncTimeline option"

record CDRMSyncPointState =
  m_resource :: "nat option"
  m_point :: u64
  m_acquirePoint :: bool
  m_acquireCommitted :: bool
  m_releaseTaken :: bool

record CSyncReleaser =
  rel_timeline :: "nat option"
  rel_point :: u64

datatype eBufferType = BUFFER_TYPE_DMABUF | BUFFER_TYPE_SHM | BUFFER_TYPE_MISC

text \<open>
  A buffer reference with what the two files read from it: whether the content is
  synchronous, its type and dmabuf attributes, the handle \<open>exportSyncFile()\<close> yields for its
  implicit fence, the explicit points attached to it and the releaser of the buffer.
\<close>

record CHLBufferReference =
  buf_id :: nat
  isSynchronous :: bool
  buf_type :: eBufferType
  dmabuf_success :: bool
  exportSyncFile :: "nat option"
  acquire :: "CDRMSyncPointState option"
  release :: "CDRMSyncPointState option"
  syncReleaser :: "CSyncReleaser option"

text \<open>
  \<open>SSurfaceState\<close> with the members the two files use. DRMSyncobj.cpp reads \<open>newBuffer\<close>
  and the points that hang on the buffer reference; Compositor.cpp reads \<open>updated.buffer\<close>,
  \<open>updated.acquire\<close> and the acquire point of the state itself: the record has the members
  of both. Sizes, scale, transform, offset, viewport and the input and opaque regions are
  geometry that no function below branches on; they are left out, and damage is a list of
  boxes that is only copied or cleared.
\<close>

record SSurfaceState =
  buffer :: "CHLBufferReference option"
  texture :: "nat option"
  newBuffer :: bool
  updated_buffer :: bool
  updated_acquire :: bool
  st_acquire :: CDRMSyncPointState
  rejected :: bool
  damage :: "box list"
  bufferDamage :: "box list"

datatype syncobj_error =
  NO_SURFACE | NO_BUFFER | NO_ACQUIRE_POINT | NO_RELEASE_POINT | CONFLICTING_POINTS

datatype eSurfaceRole =
  SURFACE_ROLE_UNASSIGNED | SURFACE_ROLE_SUBSURFACE | SURFACE_ROLE_CURSOR | SURFACE_ROLE_SHELL

text \<open>
  One surface, its sync adapter and the timeline resources of the protocol.
  \<open>applied\<close> is a history: every state handed to \<open>commitState\<close>, oldest first.
  \<open>nextId\<close> numbers the state objects that the two queues allocate.
\<close>

record world =
  resources :: "nat \<Rightarrow> CDRMSyncobjTimelineResource option"
  errlog :: "string list"
  errors :: "syncobj_error list"
  surface_gone :: bool
  pending :: SSurfaceState
  current :: SSurfaceState
  role :: eSurfaceRole
  subsurface_sync :: bool
  surfPendingStates :: "(nat \<times> SSurfaceState) list"
  syncobj :: bool
  pendingAcquire :: CDRMSyncPointState
  pendingRelease :: CDRMSyncPointState
  syncPendingStates :: "(nat \<times> SSurfaceState) list"
  applied :: "SSurfaceState list"
  commitEvents :: nat
  readable :: "(nat \<times> waiter) list"
  nextId :: nat

section \<open>Sync points (DRMSyncobj.cpp:12-79)\<close>

definition new_CDRMSyncPointState :: "nat option \<Rightarrow> u64 \<Rightarrow> bool \<Rightarrow> CDRMSyncPointState" where
  "new_CDRMSyncPointState resource' point' acquirePoint =
     \<lparr>m_resource = resource', m_point = point', m_acquirePoint = acquirePoint,
      m_acquireCommitted = False, m_releaseTaken = False\<rparr>"

text \<open>The value-initialised point, \<open>CDRMSyncPointState{}\<close>.\<close>

definition empty_point :: CDRMSyncPointState where
  "empty_point = new_CDRMSyncPointState None 0 False"

definition logERR :: "string \<Rightarrow> world \<Rightarrow> world" where
  "logERR msg w = w\<lparr>errlog := errlog w @ [msg]\<rparr>"

text \<open>\<open>m_resource->\<close>: the resource behind the weak pointer, or the null dereference.\<close>

definition deref :: "world \<Rightarrow> nat option \<Rightarrow> (nat \<times> CDRMSyncobjTimelineResource) option" where
  "deref w ptr = (case ptr of None \<Rightarrow> None | Some r \<Rightarrow> map_option (Pair r) (resources w r))"

text \<open>The identity of the timeline that a resource holds: null, or the timeline of \<open>r\<close>.\<close>

definition timeline_ptr :: "nat \<Rightarrow> CDRMSyncobjTimelineResource \<Rightarrow> nat option" where
  "timeline_ptr r res = (if res_timeline res = None then None else Some r)"

text \<open>
  \<open>expired()\<close> is \<open>m_resource.expired() || !m_resource->timeline\<close>: the right operand is
  evaluated only when the pointer is live.
\<close>

definition expired :: "world \<Rightarrow> CDRMSyncPointState \<Rightarrow> bool" where
  "expired w p =
     (case m_resource p of
        None \<Rightarrow> True
      | Some r \<Rightarrow> (case resources w r of None \<Rightarrow> True | Some res \<Rightarrow> res_timeline res = None))"

definition timeline :: "CDRMSyncPointState \<Rightarrow> world \<Rightarrow> (nat option \<times> world) option" where
  "timeline p w =
     (if expired w p
      then Some (None, logERR ''CDRMSyncPointState: getting a timeline on a expired point'' w)
      else do {
        (r, res) \<leftarrow> deref w (m_resource p);
        Some (timeline_ptr r res, w)
      })"

definition createSyncRelease ::
  "CDRMSyncPointState \<Rightarrow> world \<Rightarrow> (CSyncReleaser option \<times> CDRMSyncPointState \<times> world) option" where
  "createSyncRelease p w =
     (if expired w p
      then Some (None, p,
             logERR ''CDRMSyncPointState: creating a sync releaser on an expired point'' w)
      else
        let w1 = (if m_releaseTaken p
                  then logERR ''CDRMSyncPointState: creating a sync releaser on an already created SyncRelease'' w
                  else w);
            p1 = p\<lparr>m_releaseTaken := True\<rparr>
        in do {
          (r, res) \<leftarrow> deref w1 (m_resource p1);
          Some (Some \<lparr>rel_timeline = timeline_ptr r res, rel_point = m_point p1\<rparr>, p1, w1)
        })"

text \<open>
  Modelled from the spec: \<open>CSyncTimeline::addWaiter\<close> is not in src. The spec's contract is
  \<open>addWaiter(cb, value, flags) -> bool\<close>, a fire-once registration that does not block;
  the model appends the waiter and reports success.
\<close>

definition tl_addWaiter :: "waiter \<Rightarrow> u64 \<Rightarrow> CSyncTimeline \<Rightarrow> bool \<times> CSyncTimeline" where
  "tl_addWaiter cb v t = (True, t\<lparr>tl_waiters := tl_waiters t @ [(v, cb)]\<rparr>)"

definition set_timeline :: "nat \<Rightarrow> CDRMSyncobjTimelineResource \<Rightarrow> CSyncTimeline \<Rightarrow> world \<Rightarrow> world" where
  "set_timeline r res t w = w\<lparr>resources := (resources w)(r \<mapsto> res\<lparr>res_timeline := Some t\<rparr>)\<rparr>"

definition addWaiter ::
  "waiter \<Rightarrow> CDRMSyncPointState \<Rightarrow> world \<Rightarrow> (bool \<times> CDRMSyncPointState \<times> world) option" where
  "addWaiter cb p w =
     (if expired w p
      then Some (False, p, logERR ''CDRMSyncPointState: adding a waiter on an expired point'' w)
      else
        let p1 = p\<lparr>m_acquireCommitted := True\<rparr>
        in do {
          (r, res) \<leftarrow> deref w (m_resource p1);
          t \<leftarrow> res_timeline res;
          (case tl_addWaiter cb (m_point p1) t of
             (ok, t') \<Rightarrow> Some (ok, p1, set_timeline r res t' w))
        })"

definition comitted :: "CDRMSyncPointState \<Rightarrow> bool" where
  "comitted p = m_acquireCommitted p"

definition exportAsFD :: "CDRMSyncPointState \<Rightarrow> world \<Rightarrow> (nat option \<times> world) option" where
  "exportAsFD p w =
     (if expired w p
      then Some (None, logERR ''CDRMSyncPointState: exporting a FD on an expired point'' w)
      else do {
        (r, res) \<leftarrow> deref w (m_resource p);
        t \<leftarrow> res_timeline res;
        Some (tl_syncFile t (m_point p), w)
      })"

section \<open>Applying a state (Compositor.cpp:249-255, 483-524)\<close>

definition dropPendingBuffer :: "world \<Rightarrow> world" where
  "dropPendingBuffer w = w\<lparr>pending := (pending w)\<lparr>buffer := None\<rparr>\<rparr>"

definition dropCurrentBuffer :: "world \<Rightarrow> world" where
  "dropCurrentBuffer w = w\<lparr>current := (current w)\<lparr>buffer := None\<rparr>\<rparr>"

text \<open>
  Modelled from the spec: \<open>SSurfaceState::updateFrom\<close> is not in src. The spec says that
  applying a state copies it into \<open>current\<close>.
\<close>

definition updateFrom :: "SSurfaceState \<Rightarrow> SSurfaceState \<Rightarrow> SSurfaceState" where
  "updateFrom cur st = st"

text \<open>
  \<open>commitState\<close>. The texture upload, the cursor pixel copy and the texture transform touch
  pixel data that the records do not hold. A synchronised sub-surface returns before the
  commit event; any other surface emits it (the walk over the sub-surface tree emits it on
  this surface first), and a synchronous buffer is then released unless the surface has no
  role.
\<close>

definition commitState :: "SSurfaceState \<Rightarrow> world \<Rightarrow> world" where
  "commitState st w =
     (let w1 = w\<lparr>current := updateFrom (current w) st, applied := applied w @ [st]\<rparr>
      in if role w1 = SURFACE_ROLE_SUBSURFACE \<and> subsurface_sync w1 then w1
         else
           let w2 = w1\<lparr>commitEvents := Suc (commitEvents w1)\<rparr>
           in if (case buffer (current w2) of None \<Rightarrow> False | Some b \<Rightarrow> isSynchronous b)
                 \<and> role w2 \<noteq> SURFACE_ROLE_UNASSIGNED
              then dropCurrentBuffer w2 else w2)"

text \<open>
  Modelled from the spec: \<open>CWLSurfaceResource::commitPendingState\<close>, which the adapter calls,
  is not in src. The spec knows one procedure that applies a state (section 4.3), the one
  that src has as \<open>commitState\<close>.
\<close>

definition commitPendingState :: "SSurfaceState \<Rightarrow> world \<Rightarrow> world" where
  "commitPendingState st w = commitState st w"

section \<open>The readiness callbacks\<close>

text \<open>
  The adapter's acquire waiter (DRMSyncobj.cpp:150-156). \<open>*wp.lock()\<close> dereferences the
  state that the weak pointer names; \<open>std::erase\<close> removes it from the adapter's queue.
\<close>

definition acquireWaiter :: "nat \<Rightarrow> world \<Rightarrow> world option" where
  "acquireWaiter wp w =
     (if surface_gone w then Some w
      else do {
        st \<leftarrow> map_of (syncPendingStates w) wp;
        let w1 = commitPendingState st w;
        Some (w1\<lparr>syncPendingStates := filter (\<lambda>e. fst e \<noteq> wp) (syncPendingStates w1)\<rparr>)
      })"

text \<open>
  \<open>whenReadable\<close> (Compositor.cpp:139-150): the loop applies and pops the front of the
  surface's queue until the front is the captured state; the front is then applied and
  popped. \<open>front()\<close> of an empty queue is the null dereference.
\<close>

fun whenReadable_loop :: "nat \<Rightarrow> (nat \<times> SSurfaceState) list \<Rightarrow> world \<Rightarrow> world" where
  "whenReadable_loop state [] w = w\<lparr>surfPendingStates := []\<rparr>"
| "whenReadable_loop state ((j, st) # rest) w =
     (if j = state then w\<lparr>surfPendingStates := (j, st) # rest\<rparr>
      else whenReadable_loop state rest ((commitState st w)\<lparr>surfPendingStates := rest\<rparr>))"

definition whenReadable :: "nat \<Rightarrow> world \<Rightarrow> world option" where
  "whenReadable state w =
     (if surface_gone w \<or> state \<notin> set (map fst (surfPendingStates w)) then Some w
      else
        let w1 = whenReadable_loop state (surfPendingStates w) w
        in (case surfPendingStates w1 of
              [] \<Rightarrow> None
            | (j, st) # rest \<Rightarrow> Some ((commitState st w1)\<lparr>surfPendingStates := rest\<rparr>)))"

definition run_waiter :: "waiter \<Rightarrow> world \<Rightarrow> world option" where
  "run_waiter cb w =
     (case cb of
        AcquireWaiter wp \<Rightarrow> acquireWaiter wp w
      | WhenReadable state \<Rightarrow> whenReadable state w
      | Foreign _ \<Rightarrow> Some w)"

fun run_waiters :: "waiter list \<Rightarrow> world \<Rightarrow> world option" where
  "run_waiters [] w = Some w"
| "run_waiters (cb # cbs) w = run_waiter cb w \<bind> run_waiters cbs"

text \<open>
  Modelled from the spec: \<open>CSyncTimeline::signal\<close> and \<open>removeAllWaiters\<close> are not in src.
  By the spec a waiter registered for value \<open>V\<close> fires exactly once when the counter reaches
  a value of at least \<open>V\<close>: a signal takes the waiters it satisfies off the timeline and
  runs them in registration order. \<open>removeAllWaiters\<close> empties the list.
\<close>

definition tl_signal :: "nat \<Rightarrow> u64 \<Rightarrow> world \<Rightarrow> world option" where
  "tl_signal r v w =
     (case resources w r of
        None \<Rightarrow> Some w
      | Some res \<Rightarrow>
          (case res_timeline res of
             None \<Rightarrow> Some w
           | Some t \<Rightarrow>
               run_waiters (map snd (filter (\<lambda>e. fst e \<le> v) (tl_waiters t)))
                 (set_timeline r res (t\<lparr>tl_waiters := filter (\<lambda>e. \<not> fst e \<le> v) (tl_waiters t)\<rparr>) w)))"

definition tl_removeAllWaiters :: "nat \<Rightarrow> world \<Rightarrow> world" where
  "tl_removeAllWaiters r w =
     (case resources w r of
        None \<Rightarrow> w
      | Some res \<Rightarrow>
          (case res_timeline res of
             None \<Rightarrow> w
           | Some t \<Rightarrow> set_timeline r res (t\<lparr>tl_waiters := []\<rparr>) w))"

definition signal :: "CDRMSyncPointState \<Rightarrow> world \<Rightarrow> world option" where
  "signal p w =
     (if expired w p
      then Some (logERR ''CDRMSyncPointState: signaling on an expired point'' w)
      else do {
        (r, res) \<leftarrow> deref w (m_resource p);
        t \<leftarrow> res_timeline res;
        tl_signal r (m_point p) w
      })"

text \<open>
  Modelled from the spec: the event loop's \<open>doOnReadable\<close> is not in src. It is a fire-once
  registration of a callback on a handle; \<open>onReadable\<close> is the loop finding the handle
  readable.
\<close>

definition doOnReadable :: "nat \<Rightarrow> waiter \<Rightarrow> world \<Rightarrow> world" where
  "doOnReadable fd cb w = w\<lparr>readable := readable w @ [(fd, cb)]\<rparr>"


text \<open>\<open>CDRMSyncobjProtocol::destroyResource\<close> for a timeline resource (DRMSyncobj.cpp:307).\<close>

definition destroyResource :: "nat \<Rightarrow> world \<Rightarrow> world" where
  "destroyResource r w = w\<lparr>resources := (resources w)(r := None)\<rparr>"

section \<open>The sync adapter of a surface (DRMSyncobj.cpp:81-201)\<close>

text \<open>
  \<open>CDRMSyncobjTimelineResource::fromResource\<close>: the live resource with this protocol
  identity, or the empty pointer.
\<close>

definition fromResource :: "world \<Rightarrow> nat \<Rightarrow> nat option" where
  "fromResource w res = (if resources w res = None then None else Some res)"

definition wire_point :: "u32 \<Rightarrow> u32 \<Rightarrow> u64" where
  "wire_point hi lo = push_bit 32 (ucast hi) OR ucast lo"

definition setAcquirePoint :: "nat \<Rightarrow> u32 \<Rightarrow> u32 \<Rightarrow> world \<Rightarrow> world" where
  "setAcquirePoint timeline' hi lo w =
     (if surface_gone w then w\<lparr>errors := errors w @ [NO_SURFACE]\<rparr>
      else w\<lparr>pendingAcquire :=
               new_CDRMSyncPointState (fromResource w timeline') (wire_point hi lo) True\<rparr>)"

definition setReleasePoint :: "nat \<Rightarrow> u32 \<Rightarrow> u32 \<Rightarrow> world \<Rightarrow> world" where
  "setReleasePoint timeline' hi lo w =
     (if surface_gone w then w\<lparr>errors := errors w @ [NO_SURFACE]\<rparr>
      else w\<lparr>pendingRelease :=
               new_CDRMSyncPointState (fromResource w timeline') (wire_point hi lo) False\<rparr>)"

text \<open>
  \<open>removeAllWaiters\<close> (DRMSyncobj.cpp:160-167). The guard \<open>!acquire->expired()\<close> is what makes
  \<open>resource()->timeline->\<close> safe, so the step for one queued state is total.
\<close>

definition removeWaitersOf :: "SSurfaceState \<Rightarrow> world \<Rightarrow> world" where
  "removeWaitersOf s w =
     (case buffer s of
        None \<Rightarrow> w
      | Some b \<Rightarrow>
          (case acquire b of
             None \<Rightarrow> w
           | Some a \<Rightarrow>
               if expired w a then w
               else (case m_resource a of None \<Rightarrow> w | Some r \<Rightarrow> tl_removeAllWaiters r w)))"

fun removeAllWaiters_loop :: "(nat \<times> SSurfaceState) list \<Rightarrow> world \<Rightarrow> world" where
  "removeAllWaiters_loop [] w = w"
| "removeAllWaiters_loop ((i, s) # rest) w = removeAllWaiters_loop rest (removeWaitersOf s w)"

definition removeAllWaiters :: "world \<Rightarrow> world" where
  "removeAllWaiters w = (removeAllWaiters_loop (syncPendingStates w) w)\<lparr>syncPendingStates := []\<rparr>"

text \<open>The destructor of the adapter (DRMSyncobj.cpp:169-171).\<close>

definition destroyAdapter :: "world \<Rightarrow> world" where
  "destroyAdapter w = (removeAllWaiters w)\<lparr>syncobj := False\<rparr>"

text \<open>\<open>resource->error(code, ...)\<close> followed by \<open>surface->pending.rejected = true\<close>.\<close>

definition reject :: "syncobj_error \<Rightarrow> world \<Rightarrow> world" where
  "reject e w = w\<lparr>errors := errors w @ [e], pending := (pending w)\<lparr>rejected := True\<rparr>\<rparr>"

text \<open>\<open>!p || !p->timeline()\<close> for a unique pointer to a point: the timeline, null for a null pointer.\<close>

definition timeline_of :: "CDRMSyncPointState option \<Rightarrow> world \<Rightarrow> (nat option \<times> world) option" where
  "timeline_of p w = (case p of None \<Rightarrow> Some (None, w) | Some a \<Rightarrow> timeline a w)"

definition protocolError :: "world \<Rightarrow> (bool \<times> world) option" where
  "protocolError w =
     (if texture (pending w) = None then Some (True, reject NO_BUFFER w)
      else do {
        b \<leftarrow> buffer (pending w);
        (ta, w1) \<leftarrow> timeline_of (acquire b) w;
        if ta = None then Some (True, reject NO_ACQUIRE_POINT w1)
        else do {
          (tr, w2) \<leftarrow> timeline_of (release b) w1;
          if tr = None then Some (True, reject NO_RELEASE_POINT w2)
          else do {
            a \<leftarrow> acquire b;
            r \<leftarrow> release b;
            (ta', w3) \<leftarrow> timeline a w2;
            (tr', w4) \<leftarrow> timeline r w3;
            if ta' = tr' \<and> m_point a \<ge> m_point r
            then Some (True, reject CONFLICTING_POINTS w4)
            else Some (False, w4)
          }
        }
      })"

text \<open>
  Writing through the pointer to a queued state: the state numbered \<open>i\<close> is changed in place.
\<close>

definition modify_state ::
  "nat \<Rightarrow> (SSurfaceState \<Rightarrow> SSurfaceState) \<Rightarrow> (nat \<times> SSurfaceState) list \<Rightarrow> (nat \<times> SSurfaceState) list" where
  "modify_state i f q = map (\<lambda>e. if fst e = i then (fst e, f (snd e)) else e) q"

text \<open>Lines 130-138: a staged point that has not expired moves onto the pending buffer.\<close>

definition attachAcquire :: "world \<Rightarrow> world option" where
  "attachAcquire w =
     (if \<not> expired w (pendingAcquire w)
      then do {
        b \<leftarrow> buffer (pending w);
        Some (w\<lparr>pending := (pending w)\<lparr>buffer := Some (b\<lparr>acquire := Some (pendingAcquire w)\<rparr>)\<rparr>,
                pendingAcquire := empty_point\<rparr>)
      }
      else Some w)"

definition attachRelease :: "world \<Rightarrow> world option" where
  "attachRelease w =
     (if \<not> expired w (pendingRelease w)
      then do {
        b \<leftarrow> buffer (pending w);
        Some (w\<lparr>pending := (pending w)\<lparr>buffer := Some (b\<lparr>release := Some (pendingRelease w)\<rparr>)\<rparr>,
                pendingRelease := empty_point\<rparr>)
      }
      else Some w)"

text \<open>
  Lines 143-156: the pending state is copied into the adapter's queue, the pending slot is
  cleared, the releaser is created from the release point and the acquire waiter is
  registered. The queued copy shares the buffer object, so the releaser and the flags of
  the two points are written into the queued state.
\<close>

definition enqueueSynced :: "world \<Rightarrow> world option" where
  "enqueueSynced w =
     (let i = nextId w;
          st = pending w;
          w1 = w\<lparr>syncPendingStates := syncPendingStates w @ [(i, st)], nextId := Suc i,
                 pending := (pending w)\<lparr>damage := [], bufferDamage := [], newBuffer := False,
                                         buffer := None\<rparr>\<rparr>
      in do {
        b \<leftarrow> buffer st;
        rel \<leftarrow> release b;
        (releaser, rel', w2) \<leftarrow> createSyncRelease rel w1;
        acq \<leftarrow> acquire b;
        (ok, acq', w3) \<leftarrow> addWaiter (AcquireWaiter i) acq w2;
        Some (w3\<lparr>syncPendingStates :=
                   modify_state i
                     (\<lambda>s. s\<lparr>buffer := Some (b\<lparr>syncReleaser := releaser, release := Some rel',
                                               acquire := Some acq'\<rparr>)\<rparr>)
                     (syncPendingStates w3)\<rparr>)
      })"

text \<open>The listener on the surface's precommit event (DRMSyncobj.cpp:111-157).\<close>

definition surfacePrecommit :: "world \<Rightarrow> world option" where
  "surfacePrecommit w =
     (if buffer (pending w) = None \<and> newBuffer (pending w) \<and> texture (pending w) = None
      then
        (let w1 = removeAllWaiters w in Some (commitPendingState (pending w1) w1))
      else if buffer (pending w) = None \<and> \<not> newBuffer (pending w) \<and> buffer (current w) \<noteq> None
      then
        (let w1 = w\<lparr>current := (current w)\<lparr>bufferDamage := [], damage := []\<rparr>\<rparr>
         in Some (commitPendingState (current w1) w1))
      else if buffer (pending w) = None \<and> \<not> newBuffer (pending w) \<and> buffer (current w) = None
      then Some (commitPendingState (pending w) w)
      else do {
        w1 \<leftarrow> attachAcquire w;
        w2 \<leftarrow> attachRelease w1;
        (err, w3) \<leftarrow> protocolError w2;
        if err then Some w3 else enqueueSynced w3
      })"

section \<open>The attach and commit requests of a surface (Compositor.cpp:73-170)\<close>

text \<open>
  The attach request (Compositor.cpp:73-101). \<open>buf\<close> is the buffer behind the \<open>wl_buffer\<close>
  with its texture; it is absent for a null \<open>wl_buffer\<close> and for one whose buffer is gone.
  The request sets \<open>updated.buffer\<close> and replaces the pending buffer and texture. The
  offset, the sizes and the whole-buffer damage that follows a change of size are
  geometry, which the records do not hold. No request in src writes \<open>newBuffer\<close>, the
  member that the listener of the sync adapter reads.
\<close>

definition attach :: "(CHLBufferReference \<times> nat option) option \<Rightarrow> world \<Rightarrow> world" where
  "attach buf w =
     (let p = (pending w)\<lparr>updated_buffer := True\<rparr>
      in case buf of
           Some (b, tex) \<Rightarrow> w\<lparr>pending := p\<lparr>buffer := Some b, texture := tex\<rparr>\<rparr>
         | None \<Rightarrow> w\<lparr>pending := p\<lparr>buffer := None, texture := None\<rparr>\<rparr>)"

text \<open>
  \<open>setCommit\<close>. The clipping of damage and the computation of the size at the head of the
  handler write geometry only. The precommit event has one listener in src, the one of the
  sync adapter when the surface has one. \<open>SSurfaceState::reset\<close> is not in src and the spec
  does not say what it clears: it is the parameter \<open>reset\<close>.
\<close>

definition setCommit :: "(SSurfaceState \<Rightarrow> SSurfaceState) \<Rightarrow> world \<Rightarrow> world option" where
  "setCommit reset w =
     do {
       w1 \<leftarrow> (if syncobj w then surfacePrecommit w else Some w);
       if rejected (pending w1)
       then Some (dropPendingBuffer (w1\<lparr>pending := (pending w1)\<lparr>rejected := False\<rparr>\<rparr>))
       else if \<not> updated_buffer (pending w1)
               \<or> (buffer (pending w1) = None \<and> texture (pending w1) = None)
       then (let w2 = commitState (pending w1) w1 in Some (w2\<lparr>pending := reset (pending w2)\<rparr>))
       else
         let i = nextId w1;
             st = pending w1;
             w2 = w1\<lparr>surfPendingStates := surfPendingStates w1 @ [(i, st)], nextId := Suc i,
                     pending := reset (pending w1)\<rparr>
         in if updated_acquire st
            then do {
              (ok, a, w3) \<leftarrow> addWaiter (WhenReadable i) (st_acquire st) w2;
              Some (w3\<lparr>surfPendingStates :=
                         modify_state i (\<lambda>s. s\<lparr>st_acquire := a\<rparr>) (surfPendingStates w3)\<rparr>)
            }
            else do {
              b \<leftarrow> buffer st;
              if isSynchronous b then whenReadable i w2
              else if buf_type b = BUFFER_TYPE_DMABUF \<and> dmabuf_success b
              then (case exportSyncFile b of
                      Some syncFd \<Rightarrow> Some (doOnReadable syncFd (WhenReadable i) w2)
                    | None \<Rightarrow> whenReadable i w2)
              else whenReadable i
                     (logERR ''BUG THIS: wl_surface.commit: no acquire, non-dmabuf, async buffer, needs wait... this shouldn't happen'' w2)
            }
     }"

section \<open>Notions used in the statements\<close>

text \<open>
  The timeline that \<open>removeAllWaiters\<close> empties for a queued state: the one of its acquire
  point, when the state has a buffer with an acquire point that has not expired.
\<close>

definition liveAcquireTimeline :: "world \<Rightarrow> SSurfaceState \<Rightarrow> nat option" where
  "liveAcquireTimeline w s =
     (case buffer s of
        None \<Rightarrow> None
      | Some b \<Rightarrow> (case acquire b of None \<Rightarrow> None | Some a \<Rightarrow> if expired w a then None else m_resource a))"

text \<open>The waiters registered on the timeline of resource \<open>r\<close>.\<close>

definition waiters_on :: "world \<Rightarrow> nat \<Rightarrow> (u64 \<times> waiter) list" where
  "waiters_on w r =
     (case resources w r of
        None \<Rightarrow> []
      | Some res \<Rightarrow> (case res_timeline res of None \<Rightarrow> [] | Some t \<Rightarrow> tl_waiters t))"

text \<open>A resource with the waiters of its timeline removed.\<close>

definition clearWaiters :: "CDRMSyncobjTimelineResource \<Rightarrow> CDRMSyncobjTimelineResource" where
  "clearWaiters res = res\<lparr>res_timeline := map_option (\<lambda>t. t\<lparr>tl_waiters := []\<rparr>) (res_timeline res)\<rparr>"

text \<open>
  Every acquire waiter of the adapter that is registered on a timeline belongs to a state
  in the adapter's queue whose acquire point is live on that timeline. The listener
  registers each waiter so (DRMSyncobj.cpp:150), and a timeline that is destroyed takes
  its waiters with it.
\<close>

definition waiters_tracked :: "world \<Rightarrow> bool" where
  "waiters_tracked w =
     (\<forall>r p i. (p, AcquireWaiter i) \<in> set (waiters_on w r) \<longrightarrow>
        (\<exists>s. (i, s) \<in> set (syncPendingStates w) \<and> liveAcquireTimeline w s = Some r))"

text \<open>Two worlds that differ in the error log at most.\<close>

definition same_but_log :: "world \<Rightarrow> world \<Rightarrow> bool" where
  "same_but_log w w' = (\<exists>l. w' = w\<lparr>errlog := l\<rparr>)"

text \<open>
  The states in the surface's queue are objects allocated before the next one: their
  numbers lie below \<open>nextId\<close>.
\<close>

definition fresh_ids :: "world \<Rightarrow> bool" where
  "fresh_ids w = list_all (\<lambda>e. fst e < nextId w) (surfPendingStates w)"

text \<open>
  The invariant of the adapter's waiters: they are tracked as above, the states in the
  adapter's queue carry distinct numbers below \<open>nextId\<close>, and no timeline holds two
  acquire waiters for one state.
\<close>

definition adapter_ids_fresh :: "world \<Rightarrow> bool" where
  "adapter_ids_fresh w = list_all (\<lambda>e. fst e < nextId w) (syncPendingStates w)"

definition adapter_waiter_ids :: "world \<Rightarrow> nat \<Rightarrow> nat list" where
  "adapter_waiter_ids w r =
     concat (map (\<lambda>e. case snd e of AcquireWaiter i \<Rightarrow> [i] | _ \<Rightarrow> []) (waiters_on w r))"

definition adapter_inv :: "world \<Rightarrow> bool" where
  "adapter_inv w =
     (waiters_tracked w \<and> adapter_ids_fresh w \<and> distinct (map fst (syncPendingStates w))
      \<and> (\<forall>r. distinct (adapter_waiter_ids w r)))"

section \<open>Example worlds\<close>

text \<open>
  A surface with a sync adapter and two imported timelines, 1 and 2; the same world with
  one commit in the adapter's queue, waiting on point 1 of timeline 1, on which another
  client has a waiter too.
\<close>

definition ex_timeline :: CSyncTimeline where
  "ex_timeline = \<lparr>tl_waiters = [], tl_syncFile = (\<lambda>_. None)\<rparr>"

definition ex_buffer :: "nat \<Rightarrow> CHLBufferReference" where
  "ex_buffer n =
     \<lparr>buf_id = n, isSynchronous = False, buf_type = BUFFER_TYPE_DMABUF, dmabuf_success = True,
      exportSyncFile = None, acquire = None, release = None, syncReleaser = None\<rparr>"

definition ex_state :: SSurfaceState where
  "ex_state =
     \<lparr>buffer = None, texture = None, newBuffer = False, updated_buffer = False,
      updated_acquire = False, st_acquire = empty_point, rejected = False, damage = [],
      bufferDamage = []\<rparr>"

text \<open>The pending state that the attach of buffer \<open>n\<close> leaves.\<close>

definition ex_attached :: "nat \<Rightarrow> SSurfaceState" where
  "ex_attached n =
     ex_state\<lparr>buffer := Some (ex_buffer n), texture := Some n, updated_buffer := True\<rparr>"

definition ex_world :: world where
  "ex_world =
     \<lparr>resources = (\<lambda>_. None)(1 \<mapsto> \<lparr>res_timeline = Some ex_timeline\<rparr>,
                                  2 \<mapsto> \<lparr>res_timeline = Some ex_timeline\<rparr>),
      errlog = [], errors = [], surface_gone = False, pending = ex_state, current = ex_state,
      role = SURFACE_ROLE_SHELL, subsurface_sync = False, surfPendingStates = [],
      syncobj = True, pendingAcquire = empty_point, pendingRelease = empty_point,
      syncPendingStates = [], applied = [], commitEvents = 0, readable = [], nextId = 0\<rparr>"

definition ex_queued_state :: SSurfaceState where
  "ex_queued_state =
     (ex_attached 1)\<lparr>buffer := Some ((ex_buffer 1)
        \<lparr>acquire := Some ((new_CDRMSyncPointState (Some 1) 1 True)\<lparr>m_acquireCommitted := True\<rparr>),
         release := Some ((new_CDRMSyncPointState (Some 1) 2 False)\<lparr>m_releaseTaken := True\<rparr>),
         syncReleaser := Some \<lparr>rel_timeline = Some 1, rel_point = 2\<rparr>\<rparr>)\<rparr>"

definition ex_queued :: world where
  "ex_queued =
     ex_world\<lparr>resources := (resources ex_world)
                  (1 \<mapsto> \<lparr>res_timeline = Some (ex_timeline\<lparr>tl_waiters := [(7, Foreign 9), (1, AcquireWaiter 0)]\<rparr>)\<rparr>),
              syncPendingStates := [(0, ex_queued_state)], nextId := 1\<rparr>"

text \<open>
  The example world at the moment of validation: a buffer with content is pending, with an
  acquire point \<open>(ta, va)\<close> and a release point \<open>(tr, vr)\<close> attached.
\<close>

definition ex_validate :: "nat \<Rightarrow> u64 \<Rightarrow> nat \<Rightarrow> u64 \<Rightarrow> world" where
  "ex_validate ta va tr vr =
     ex_world\<lparr>pending := (ex_attached 1)\<lparr>buffer := Some ((ex_buffer 1)
        \<lparr>acquire := Some (new_CDRMSyncPointState (Some ta) va True),
         release := Some (new_CDRMSyncPointState (Some tr) vr False)\<rparr>)\<rparr>\<rparr>"

text \<open>
  The example world with the commit queued and a pending state that passes the guard of
  the listener's first branch: no buffer, no texture, \<open>newBuffer\<close> set.
\<close>

definition ex_null_commit :: world where
  "ex_null_commit = ex_queued\<lparr>pending := ex_state\<lparr>newBuffer := True\<rparr>\<rparr>"

text \<open>
  Points 5 and 6 of timeline 1 staged as acquire and release point, with no buffer
  attached, with buffer 1 attached, and after a commit without a buffer that is followed
  by the attachment of buffer 7. In \<open>ex_expired_commit\<close> point 5 of timeline 1 and point 6 of
  timeline 2 are staged, the resource of timeline 1 is destroyed and buffer 1 is attached.
\<close>

definition ex_staged :: world where
  "ex_staged = setReleasePoint 1 0 6 (setAcquirePoint 1 0 5 ex_world)"

definition ex_real_commit :: world where
  "ex_real_commit = attach (Some (ex_buffer 1, Some 1)) ex_staged"

definition ex_later_commit :: world where
  "ex_later_commit =
     attach (Some (ex_buffer 7, Some 7)) (commitPendingState (pending ex_staged) ex_staged)"

definition ex_expired_commit :: world where
  "ex_expired_commit =
     attach (Some (ex_buffer 1, Some 1))
       (destroyResource 1 (setReleasePoint 2 0 6 (setAcquirePoint 1 0 5 ex_world)))"

text \<open>
  What the adapter's queue holds: per queued state the buffer with the timeline and value
  of its acquire and of its release point.
\<close>

definition queued_points :: "world \<Rightarrow> (nat \<times> (nat option \<times> u64) option \<times> (nat option \<times> u64) option) list" where
  "queued_points w =
     map (\<lambda>e. (case buffer (snd e) of
                  None \<Rightarrow> (0, None, None)
                | Some b \<Rightarrow> (buf_id b,
                             map_option (\<lambda>p. (m_resource p, m_point p)) (acquire b),
                             map_option (\<lambda>p. (m_resource p, m_point p)) (release b))))
         (syncPendingStates w)"

text \<open>
  A surface without a sync adapter whose queue holds one commit that waits on the
  implicit fence of its buffer; \<open>p\<close> is pending. A pending shm buffer, and a pending dmabuf
  whose implicit fence exports as \<open>fd\<close>.
\<close>

definition ex_surface_queue :: "SSurfaceState \<Rightarrow> world" where
  "ex_surface_queue p =
     ex_world\<lparr>syncobj := False, surfPendingStates := [(0, ex_attached 1)],
              readable := [(11, WhenReadable 0)], nextId := 1, pending := p\<rparr>"

definition ex_shm :: SSurfaceState where
  "ex_shm = (ex_attached 2)\<lparr>buffer := Some ((ex_buffer 2)
      \<lparr>isSynchronous := True, buf_type := BUFFER_TYPE_SHM, dmabuf_success := False\<rparr>)\<rparr>"

definition ex_dmabuf :: "nat option \<Rightarrow> SSurfaceState" where
  "ex_dmabuf fd = (ex_attached 3)\<lparr>buffer := Some ((ex_buffer 3)\<lparr>exportSyncFile := fd\<rparr>)\<rparr>"

text \<open>
  A commit of buffer \<open>n\<close> through the adapter with acquire point 1 and release point 2 of
  timeline \<open>t\<close>. In \<open>ex_out_of_order\<close> buffer 1 is committed on timeline 1, buffer 2 on
  timeline 2, and timeline 2 is signalled before timeline 1.
\<close>

definition ex_commit :: "nat \<Rightarrow> nat \<Rightarrow> world \<Rightarrow> world option" where
  "ex_commit n t w =
     surfacePrecommit (setReleasePoint t 0 2 (setAcquirePoint t 0 1 (w\<lparr>pending := ex_attached n\<rparr>)))"

definition ex_out_of_order :: "world option" where
  "ex_out_of_order = ex_commit 1 1 ex_world \<bind> ex_commit 2 2 \<bind> tl_signal 2 1 \<bind> tl_signal 1 1"

definition applied_buffers :: "world \<Rightarrow> nat option list" where
  "applied_buffers w = map (\<lambda>s. map_option buf_id (buffer s)) (applied w)"

definition current_buffer :: "world \<Rightarrow> nat option" where
  "current_buffer w = map_option buf_id (buffer (current w))"







text \<open>A release point on timeline 1 of the example world.\<close>

definition ex_release_point :: CDRMSyncPointState where
  "ex_release_point = new_CDRMSyncPointState (Some 1) 2 False"

section \<open>Frame lemmas\<close>

lemma commitState_frame [simp]:
  "resources (commitState st w) = resources w"
  "errlog (commitState st w) = errlog w"
  "errors (commitState st w) = errors w"
  "surface_gone (commitState st w) = surface_gone w"
  "pending (commitState st w) = pending w"
  "role (commitState st w) = role w"
  "subsurface_sync (commitState st w) = subsurface_sync w"
  "surfPendingStates (commitState st w) = surfPendingStates w"
  "syncobj (commitState st w) = syncobj w"
  "pendingAcquire (commitState st w) = pendingAcquire w"
  "pendingRelease (commitState st w) = pendingRelease w"
  "syncPendingStates (commitState st w) = syncPendingStates w"
  "readable (commitState st w) = readable w"
  "nextId (commitState st w) = nextId w"
  "applied (commitState st w) = applied w @ [st]"
  by (simp_all add: commitState_def Let_def dropCurrentBuffer_def)

lemma current_commitState:
  "current (commitState st w) =
     (if role w = SURFACE_ROLE_SUBSURFACE \<and> subsurface_sync w then st
      else if (case buffer st of None \<Rightarrow> False | Some b \<Rightarrow> isSynchronous b)
              \<and> role w \<noteq> SURFACE_ROLE_UNASSIGNED
      then st\<lparr>buffer := None\<rparr> else st)"
  by (simp add: commitState_def Let_def dropCurrentBuffer_def updateFrom_def)

lemma expired_resources: "resources w' = resources w \<Longrightarrow> expired w' = expired w"
  by (rule ext) (simp add: expired_def split: option.splits)

lemma liveAcquireTimeline_resources:
  "resources w' = resources w \<Longrightarrow> liveAcquireTimeline w' = liveAcquireTimeline w"
  using expired_resources[of w' w]
  by (intro ext) (simp add: liveAcquireTimeline_def split: option.splits)

lemma waiters_on_resources: "resources w' = resources w \<Longrightarrow> waiters_on w' = waiters_on w"
  by (rule ext) (simp add: waiters_on_def)

lemma waiters_on_commitState [simp]: "waiters_on (commitState st w) r = waiters_on w r"
  by (simp add: waiters_on_def)

lemma expired_empty_point [simp]: "expired w empty_point"
  by (simp add: expired_def empty_point_def new_CDRMSyncPointState_def)

lemma same_but_log_refl [simp]: "same_but_log w w"
  unfolding same_but_log_def by (rule exI[of _ "errlog w"]) simp

lemma same_but_log_logERR [simp]: "same_but_log w (logERR m w)"
  unfolding same_but_log_def logERR_def by blast

lemma same_but_log_trans: "same_but_log w w1 \<Longrightarrow> same_but_log w1 w2 \<Longrightarrow> same_but_log w w2"
  unfolding same_but_log_def by auto

lemma same_but_log_fields:
  assumes "same_but_log w w'"
  shows "resources w' = resources w" "errors w' = errors w" "surface_gone w' = surface_gone w"
    "pending w' = pending w" "current w' = current w" "role w' = role w"
    "subsurface_sync w' = subsurface_sync w" "surfPendingStates w' = surfPendingStates w"
    "syncobj w' = syncobj w" "pendingAcquire w' = pendingAcquire w"
    "pendingRelease w' = pendingRelease w" "syncPendingStates w' = syncPendingStates w"
    "applied w' = applied w" "commitEvents w' = commitEvents w" "readable w' = readable w"
    "nextId w' = nextId w"
  using assms unfolding same_but_log_def by auto

lemma timeline_same_but_log: "timeline p w = Some (x, w') \<Longrightarrow> same_but_log w w'"
  by (auto simp: timeline_def split: if_splits Option.bind_splits)

lemma timeline_of_same_but_log: "timeline_of p w = Some (x, w') \<Longrightarrow> same_but_log w w'"
  by (auto simp: timeline_of_def timeline_same_but_log split: option.splits)

lemma createSyncRelease_same_but_log:
  "createSyncRelease p w = Some (x, p', w') \<Longrightarrow> same_but_log w w'"
  by (auto simp: createSyncRelease_def Let_def split: if_splits Option.bind_splits)

lemma expired_set_timeline:
  "resources w r = Some res \<Longrightarrow> res_timeline res = Some t \<Longrightarrow>
   expired (set_timeline r res t' w) = expired w"
  by (rule ext) (auto simp: expired_def set_timeline_def split: option.splits)

lemma tl_removeAllWaiters_eq:
  "tl_removeAllWaiters r w = w\<lparr>resources := (resources w)(r := map_option clearWaiters (resources w r))\<rparr>"
proof (cases "resources w r")
  case None
  then have "(resources w)(r := None) = resources w" by (simp add: fun_upd_idem)
  then show ?thesis using None by (simp add: tl_removeAllWaiters_def)
next
  case (Some res)
  show ?thesis
  proof (cases "res_timeline res")
    case None
    then have "clearWaiters res = res" by (simp add: clearWaiters_def)
    then have "(resources w)(r \<mapsto> clearWaiters res) = resources w"
      using Some by (simp add: fun_upd_idem)
    then show ?thesis using Some None by (simp add: tl_removeAllWaiters_def)
  next
    case (Some t)
    then show ?thesis
      using \<open>resources w r = Some res\<close>
      by (simp add: tl_removeAllWaiters_def set_timeline_def clearWaiters_def)
  qed
qed

lemma expired_resources_cong:
  "(\<And>r. (case rs r of None \<Rightarrow> True | Some res \<Rightarrow> res_timeline res = None) =
         (case resources w r of None \<Rightarrow> True | Some res \<Rightarrow> res_timeline res = None)) \<Longrightarrow>
   expired (w\<lparr>resources := rs\<rparr>) p = expired w p"
  by (simp add: expired_def split: option.splits)

lemma expired_tl_removeAllWaiters [simp]:
  "expired (tl_removeAllWaiters r w) p = expired w p"
  unfolding tl_removeAllWaiters_eq
  by (rule expired_resources_cong) (auto simp: clearWaiters_def split: option.splits)

lemma liveAcquireTimeline_tl_removeAllWaiters [simp]:
  "liveAcquireTimeline (tl_removeAllWaiters r w) s = liveAcquireTimeline w s"
  by (simp add: liveAcquireTimeline_def split: option.splits)

lemma removeWaitersOf_eq:
  "removeWaitersOf s w =
     (case liveAcquireTimeline w s of None \<Rightarrow> w | Some r \<Rightarrow> tl_removeAllWaiters r w)"
  by (auto simp: removeWaitersOf_def liveAcquireTimeline_def expired_def split: option.splits)

lemma liveAcquireTimeline_removeWaitersOf [simp]:
  "liveAcquireTimeline (removeWaitersOf s' w) s = liveAcquireTimeline w s"
  by (simp add: removeWaitersOf_eq split: option.splits)

lemma clearWaiters_idem [simp]: "clearWaiters (clearWaiters res) = clearWaiters res"
  by (simp add: clearWaiters_def option.map_comp comp_def)

lemma removeAllWaiters_loop_eq:
  "removeAllWaiters_loop q w =
     w\<lparr>resources := (\<lambda>r. if Some r \<in> liveAcquireTimeline w ` snd ` set q
                          then map_option clearWaiters (resources w r) else resources w r)\<rparr>"
proof (induction q arbitrary: w)
  case Nil
  then show ?case by simp
next
  case (Cons e q)
  obtain i s where e: "e = (i, s)" by (cases e)
  show ?case
  proof (cases "liveAcquireTimeline w s")
    case None
    then show ?thesis
      using Cons.IH[of w] by (auto simp: e removeWaitersOf_eq intro!: ext)
  next
    case (Some r0)
    have "removeAllWaiters_loop (e # q) w = removeAllWaiters_loop q (tl_removeAllWaiters r0 w)"
      by (simp add: e removeWaitersOf_eq Some)
    also have "\<dots> = w\<lparr>resources := (\<lambda>r. if Some r \<in> liveAcquireTimeline w ` snd ` set (e # q)
                          then map_option clearWaiters (resources w r) else resources w r)\<rparr>"
    proof -
      have L: "liveAcquireTimeline (tl_removeAllWaiters r0 w) = liveAcquireTimeline w"
        by (rule ext) simp
      have F: "(\<lambda>r. if Some r \<in> liveAcquireTimeline w ` snd ` set q
                 then map_option clearWaiters (resources (tl_removeAllWaiters r0 w) r)
                 else resources (tl_removeAllWaiters r0 w) r) =
            (\<lambda>r. if Some r \<in> liveAcquireTimeline w ` snd ` set (e # q)
                 then map_option clearWaiters (resources w r) else resources w r)"
        by (rule ext) (auto simp: e Some tl_removeAllWaiters_eq option.map_comp comp_def)
      have "removeAllWaiters_loop q (tl_removeAllWaiters r0 w) =
            (tl_removeAllWaiters r0 w)\<lparr>resources :=
               (\<lambda>r. if Some r \<in> liveAcquireTimeline w ` snd ` set (e # q)
                 then map_option clearWaiters (resources w r) else resources w r)\<rparr>"
        unfolding Cons.IH L F ..
      then show ?thesis
        by (simp add: tl_removeAllWaiters_eq)
    qed
    finally show ?thesis .
  qed
qed


lemma removeAllWaiters_frame [simp]:
  "errlog (removeAllWaiters w) = errlog w"
  "errors (removeAllWaiters w) = errors w"
  "surface_gone (removeAllWaiters w) = surface_gone w"
  "pending (removeAllWaiters w) = pending w"
  "current (removeAllWaiters w) = current w"
  "role (removeAllWaiters w) = role w"
  "subsurface_sync (removeAllWaiters w) = subsurface_sync w"
  "surfPendingStates (removeAllWaiters w) = surfPendingStates w"
  "syncobj (removeAllWaiters w) = syncobj w"
  "pendingAcquire (removeAllWaiters w) = pendingAcquire w"
  "pendingRelease (removeAllWaiters w) = pendingRelease w"
  "syncPendingStates (removeAllWaiters w) = []"
  "applied (removeAllWaiters w) = applied w"
  "readable (removeAllWaiters w) = readable w"
  "nextId (removeAllWaiters w) = nextId w"
  by (simp_all add: removeAllWaiters_def removeAllWaiters_loop_eq)

lemma resources_removeAllWaiters:
  "resources (removeAllWaiters w) =
     (\<lambda>r. if Some r \<in> liveAcquireTimeline w ` snd ` set (syncPendingStates w)
          then map_option clearWaiters (resources w r) else resources w r)"
  by (simp add: removeAllWaiters_def removeAllWaiters_loop_eq)

lemma waiters_on_removeAllWaiters:
  "waiters_on (removeAllWaiters w) r =
     (if Some r \<in> liveAcquireTimeline w ` snd ` set (syncPendingStates w) then [] else waiters_on w r)"
  by (auto simp: removeAllWaiters_def removeAllWaiters_loop_eq waiters_on_def clearWaiters_def
      split: option.splits)

section \<open>Operations on an expired sync point\<close>

lemma expired_destroyResource: "m_resource p = Some r \<Longrightarrow> expired (destroyResource r w) p"
  by (simp add: expired_def destroyResource_def)

lemma timeline_live: "\<not> expired w p \<Longrightarrow> timeline p w = Some (m_resource p, w)"
  by (auto simp: timeline_def expired_def deref_def timeline_ptr_def split: option.splits)

text \<open>
  C6. Every operation on an expired sync point (timeline lookup, releaser creation, waiter
  registration, export of a file descriptor, direct signal) returns normally: it writes
  one line to the error log, returns the empty pointer, no releaser, \<open>false\<close>, an invalid
  descriptor or nothing, and changes neither the point nor anything else of the world. No
  operation ends in the dereference of the missing resource, which the model would show
  as \<open>None\<close>.
\<close>

theorem expired_point_operations_fail_locally:
  assumes "expired w p"
  shows "timeline p w =
           Some (None, logERR ''CDRMSyncPointState: getting a timeline on a expired point'' w)
    \<and> createSyncRelease p w =
           Some (None, p, logERR ''CDRMSyncPointState: creating a sync releaser on an expired point'' w)
    \<and> addWaiter cb p w =
           Some (False, p, logERR ''CDRMSyncPointState: adding a waiter on an expired point'' w)
    \<and> exportAsFD p w =
           Some (None, logERR ''CDRMSyncPointState: exporting a FD on an expired point'' w)
    \<and> signal p w = Some (logERR ''CDRMSyncPointState: signaling on an expired point'' w)"
  using assms
  by (simp add: timeline_def createSyncRelease_def addWaiter_def exportAsFD_def signal_def)

text \<open>
  The witness destroys timeline 1 of the example world with a commit queued on it, and
  calls the five operations on a point of that timeline.
\<close>

theorem expired_point_operations_fail_locally_witness:
  "expired (destroyResource 1 ex_queued) (new_CDRMSyncPointState (Some 1) 1 True)
   \<and> timeline (new_CDRMSyncPointState (Some 1) 1 True) (destroyResource 1 ex_queued) =
       Some (None, logERR ''CDRMSyncPointState: getting a timeline on a expired point''
                     (destroyResource 1 ex_queued))
   \<and> createSyncRelease (new_CDRMSyncPointState (Some 1) 1 True) (destroyResource 1 ex_queued) =
       Some (None, new_CDRMSyncPointState (Some 1) 1 True,
             logERR ''CDRMSyncPointState: creating a sync releaser on an expired point''
               (destroyResource 1 ex_queued))
   \<and> addWaiter (AcquireWaiter 0) (new_CDRMSyncPointState (Some 1) 1 True)
         (destroyResource 1 ex_queued) =
       Some (False, new_CDRMSyncPointState (Some 1) 1 True,
             logERR ''CDRMSyncPointState: adding a waiter on an expired point''
               (destroyResource 1 ex_queued))
   \<and> exportAsFD (new_CDRMSyncPointState (Some 1) 1 True) (destroyResource 1 ex_queued) =
       Some (None, logERR ''CDRMSyncPointState: exporting a FD on an expired point''
                     (destroyResource 1 ex_queued))
   \<and> signal (new_CDRMSyncPointState (Some 1) 1 True) (destroyResource 1 ex_queued) =
       Some (logERR ''CDRMSyncPointState: signaling on an expired point''
               (destroyResource 1 ex_queued))"
proof -
  have e: "expired (destroyResource 1 ex_queued) (new_CDRMSyncPointState (Some 1) 1 True)"
    by (rule expired_destroyResource) (simp add: new_CDRMSyncPointState_def)
  from expired_point_operations_fail_locally[OF e, of "AcquireWaiter 0"] e
  show ?thesis by simp
qed

section \<open>Validation of a commit\<close>

lemma protocolError_live_points:
  assumes "texture (pending w) \<noteq> None" and "buffer (pending w) = Some b"
    and "acquire b = Some a" and "release b = Some r"
    and "\<not> expired w a" and "\<not> expired w r"
  shows "protocolError w =
     Some (if m_resource a = m_resource r \<and> m_point r \<le> m_point a
           then (True, reject CONFLICTING_POINTS w) else (False, w))"
proof -
  obtain ra rr where "m_resource a = Some ra" "m_resource r = Some rr"
    using assms(5,6) by (auto simp: expired_def split: option.splits)
  then show ?thesis
    using assms by (auto simp: protocolError_def timeline_of_def timeline_live)
qed

lemma timeline_of_Some:
  assumes "timeline_of p w = Some (x, w')"
  shows "(x \<noteq> None) = (\<exists>a. p = Some a \<and> \<not> expired w a)"
proof (cases p)
  case None
  then show ?thesis using assms by (auto simp: timeline_of_def)
next
  case (Some a)
  show ?thesis
  proof (cases "expired w a")
    case True
    then show ?thesis
      using Some assms by (auto simp: timeline_of_def timeline_def)
  next
    case False
    then have "m_resource a \<noteq> None" by (auto simp: expired_def split: option.splits)
    then show ?thesis
      using Some False assms by (auto simp: timeline_of_def timeline_live)
  qed
qed

lemma protocolError_conflicting_iff:
  "(\<exists>w'. protocolError w = Some (True, w') \<and> errors w' = errors w @ [CONFLICTING_POINTS]) =
   (texture (pending w) \<noteq> None \<and>
    (\<exists>b a r. buffer (pending w) = Some b \<and> acquire b = Some a \<and> release b = Some r
       \<and> \<not> expired w a \<and> \<not> expired w r
       \<and> m_resource a = m_resource r \<and> m_point r \<le> m_point a))"
proof
  assume "texture (pending w) \<noteq> None \<and>
    (\<exists>b a r. buffer (pending w) = Some b \<and> acquire b = Some a \<and> release b = Some r
       \<and> \<not> expired w a \<and> \<not> expired w r
       \<and> m_resource a = m_resource r \<and> m_point r \<le> m_point a)"
  then obtain b a r where h: "texture (pending w) \<noteq> None" "buffer (pending w) = Some b"
    "acquire b = Some a" "release b = Some r" "\<not> expired w a" "\<not> expired w r"
    and c: "m_resource a = m_resource r" "m_point r \<le> m_point a"
    by blast
  from protocolError_live_points[OF h] c
  show "\<exists>w'. protocolError w = Some (True, w') \<and> errors w' = errors w @ [CONFLICTING_POINTS]"
    by (simp add: reject_def)
next
  assume "\<exists>w'. protocolError w = Some (True, w') \<and> errors w' = errors w @ [CONFLICTING_POINTS]"
  then obtain w' where p: "protocolError w = Some (True, w')"
    and e: "errors w' = errors w @ [CONFLICTING_POINTS]"
    by blast
  have t: "texture (pending w) \<noteq> None"
  proof
    assume "texture (pending w) = None"
    then have "w' = reject NO_BUFFER w" using p by (simp add: protocolError_def)
    with e show False by (simp add: reject_def)
  qed
  from p t obtain b ta w1 where b: "buffer (pending w) = Some b"
    and ta: "timeline_of (acquire b) w = Some (ta, w1)"
    by (auto simp: protocolError_def split: Option.bind_splits)
  note f1 = same_but_log_fields[OF timeline_of_same_but_log[OF ta]]
  have nta: "ta \<noteq> None"
  proof
    assume "ta = None"
    then have "w' = reject NO_ACQUIRE_POINT w1" using p t b ta by (simp add: protocolError_def)
    with e f1(2) show False by (simp add: reject_def)
  qed
  with timeline_of_Some[OF ta] obtain a where a: "acquire b = Some a" "\<not> expired w a"
    by auto
  from p t b ta nta obtain tr w2 where tr: "timeline_of (release b) w1 = Some (tr, w2)"
    by (auto simp: protocolError_def split: Option.bind_splits)
  note f2 = same_but_log_fields[OF timeline_of_same_but_log[OF tr]]
  have e1: "expired w1 = expired w" by (rule expired_resources) (rule f1(1))
  have ntr: "tr \<noteq> None"
  proof
    assume "tr = None"
    then have "w' = reject NO_RELEASE_POINT w2"
      using p t b ta nta tr by (simp add: protocolError_def)
    with e f1(2) f2(2) show False by (simp add: reject_def)
  qed
  with timeline_of_Some[OF tr] obtain r where r: "release b = Some r" "\<not> expired w r"
    by (auto simp: e1)
  from protocolError_live_points[OF t b a(1) r(1) a(2) r(2)] p
  have "m_resource a = m_resource r \<and> m_point r \<le> m_point a"
    by (auto split: if_splits)
  with t b a r show "texture (pending w) \<noteq> None \<and>
    (\<exists>b a r. buffer (pending w) = Some b \<and> acquire b = Some a \<and> release b = Some r
       \<and> \<not> expired w a \<and> \<not> expired w r
       \<and> m_resource a = m_resource r \<and> m_point r \<le> m_point a)"
    by blast
qed

text \<open>
  C2. Validation rejects with \<open>CONFLICTING_POINTS\<close> exactly when the three earlier checks
  pass (the buffer has content, the acquire and the release point are present and not
  expired) and the two points are on the same timeline with the acquire value at least
  the release value. A commit that passes the three earlier checks and has its points on
  different timelines, or the acquire value below the release value, is accepted and
  nothing is changed.
\<close>

theorem protocolError_conflicting_points:
  "((\<exists>w'. protocolError w = Some (True, w') \<and> errors w' = errors w @ [CONFLICTING_POINTS]) =
    (texture (pending w) \<noteq> None \<and>
     (\<exists>b a r. buffer (pending w) = Some b \<and> acquire b = Some a \<and> release b = Some r
        \<and> \<not> expired w a \<and> \<not> expired w r
        \<and> m_resource a = m_resource r \<and> m_point r \<le> m_point a)))
   \<and> (texture (pending w) \<noteq> None \<and> buffer (pending w) = Some b
        \<and> acquire b = Some a \<and> release b = Some r \<and> \<not> expired w a \<and> \<not> expired w r \<longrightarrow>
      protocolError w =
        Some (if m_resource a = m_resource r \<and> m_point r \<le> m_point a
              then (True, reject CONFLICTING_POINTS w) else (False, w)))"
proof (intro conjI impI)
  show "(\<exists>w'. protocolError w = Some (True, w') \<and> errors w' = errors w @ [CONFLICTING_POINTS]) =
    (texture (pending w) \<noteq> None \<and>
     (\<exists>b a r. buffer (pending w) = Some b \<and> acquire b = Some a \<and> release b = Some r
        \<and> \<not> expired w a \<and> \<not> expired w r
        \<and> m_resource a = m_resource r \<and> m_point r \<le> m_point a))"
    by (rule protocolError_conflicting_iff)
next
  assume h: "texture (pending w) \<noteq> None \<and> buffer (pending w) = Some b
        \<and> acquire b = Some a \<and> release b = Some r \<and> \<not> expired w a \<and> \<not> expired w r"
  show "protocolError w =
        Some (if m_resource a = m_resource r \<and> m_point r \<le> m_point a
              then (True, reject CONFLICTING_POINTS w) else (False, w))"
    by (rule protocolError_live_points[where b = b]) (simp_all add: h)
qed

text \<open>
  The three cases of the spec: values 5 and 5 on timeline 1 are rejected, values 5 and 6
  on timeline 1 are accepted, and values 9 and 3 on timelines 1 and 2 are accepted.
\<close>

lemma ex_validate_wellformed:
  assumes "ta = 1 \<or> ta = 2" and "tr = 1 \<or> tr = 2"
  shows "texture (pending (ex_validate ta va tr vr)) \<noteq> None"
    and "buffer (pending (ex_validate ta va tr vr)) =
           Some ((ex_buffer 1)\<lparr>acquire := Some (new_CDRMSyncPointState (Some ta) va True),
                               release := Some (new_CDRMSyncPointState (Some tr) vr False)\<rparr>)"
    and "\<not> expired (ex_validate ta va tr vr) (new_CDRMSyncPointState (Some ta) va True)"
    and "\<not> expired (ex_validate ta va tr vr) (new_CDRMSyncPointState (Some tr) vr False)"
  using assms
  by (auto simp: ex_validate_def ex_attached_def ex_state_def ex_world_def expired_def
      new_CDRMSyncPointState_def)

theorem protocolError_conflicting_points_witness:
  "texture (pending (ex_validate 1 5 1 5)) \<noteq> None
   \<and> \<not> expired (ex_validate 1 5 1 5) (new_CDRMSyncPointState (Some 1) 5 True)
   \<and> \<not> expired (ex_validate 1 5 1 5) (new_CDRMSyncPointState (Some 1) 5 False)
   \<and> protocolError (ex_validate 1 5 1 5) =
        Some (True, reject CONFLICTING_POINTS (ex_validate 1 5 1 5))
   \<and> protocolError (ex_validate 1 5 1 6) = Some (False, ex_validate 1 5 1 6)
   \<and> protocolError (ex_validate 1 9 2 3) = Some (False, ex_validate 1 9 2 3)"
proof -
  note a = ex_validate_wellformed[where ta = 1 and va = 5 and tr = 1 and vr = 5,
      OF disjI1[OF refl] disjI1[OF refl]]
  note b = ex_validate_wellformed[where ta = 1 and va = 5 and tr = 1 and vr = 6,
      OF disjI1[OF refl] disjI1[OF refl]]
  note c = ex_validate_wellformed[where ta = 1 and va = 9 and tr = 2 and vr = 3,
      OF disjI1[OF refl] disjI2[OF refl]]
  have "protocolError (ex_validate 1 5 1 5) =
          Some (True, reject CONFLICTING_POINTS (ex_validate 1 5 1 5))"
    using protocolError_conflicting_points[of "ex_validate 1 5 1 5"
        "(ex_buffer 1)\<lparr>acquire := Some (new_CDRMSyncPointState (Some 1) 5 True),
                       release := Some (new_CDRMSyncPointState (Some 1) 5 False)\<rparr>"
        "new_CDRMSyncPointState (Some 1) 5 True" "new_CDRMSyncPointState (Some 1) 5 False"] a
    by (simp add: new_CDRMSyncPointState_def)
  moreover have "protocolError (ex_validate 1 5 1 6) = Some (False, ex_validate 1 5 1 6)"
    using protocolError_conflicting_points[of "ex_validate 1 5 1 6"
        "(ex_buffer 1)\<lparr>acquire := Some (new_CDRMSyncPointState (Some 1) 5 True),
                       release := Some (new_CDRMSyncPointState (Some 1) 6 False)\<rparr>"
        "new_CDRMSyncPointState (Some 1) 5 True" "new_CDRMSyncPointState (Some 1) 6 False"] b
    by (simp add: new_CDRMSyncPointState_def)
  moreover have "protocolError (ex_validate 1 9 2 3) = Some (False, ex_validate 1 9 2 3)"
    using protocolError_conflicting_points[of "ex_validate 1 9 2 3"
        "(ex_buffer 1)\<lparr>acquire := Some (new_CDRMSyncPointState (Some 1) 9 True),
                       release := Some (new_CDRMSyncPointState (Some 2) 3 False)\<rparr>"
        "new_CDRMSyncPointState (Some 1) 9 True" "new_CDRMSyncPointState (Some 2) 3 False"] c
    by (simp add: new_CDRMSyncPointState_def)
  ultimately show ?thesis
    using a(1,3,4) by simp
qed

section \<open>Discarding the adapter's queue\<close>

text \<open>
  C10. When the adapter discards its queue, on a null-buffer commit or in its destructor,
  then for every queued state whose acquire point has not expired the whole timeline of
  that point loses all its waiters, whoever registered them, and the queue is empty
  afterwards. The timelines of no such state keep their waiters.
\<close>

theorem removeAllWaiters_clears_whole_timelines:
  "syncPendingStates (removeAllWaiters w) = []
   \<and> (\<forall>e \<in> set (syncPendingStates w). \<forall>r.
         liveAcquireTimeline w (snd e) = Some r \<longrightarrow> waiters_on (removeAllWaiters w) r = [])
   \<and> (\<forall>r. Some r \<notin> liveAcquireTimeline w ` snd ` set (syncPendingStates w) \<longrightarrow>
         resources (removeAllWaiters w) r = resources w r)
   \<and> syncobj (destroyAdapter w) = False
   \<and> syncPendingStates (destroyAdapter w) = []
   \<and> resources (destroyAdapter w) = resources (removeAllWaiters w)
   \<and> (buffer (pending w) = None \<and> newBuffer (pending w) \<and> texture (pending w) = None \<longrightarrow>
        (\<exists>w'. surfacePrecommit w = Some w' \<and> syncPendingStates w' = []
           \<and> resources w' = resources (removeAllWaiters w)))"
proof -
  have "\<And>e r. e \<in> set (syncPendingStates w) \<Longrightarrow> liveAcquireTimeline w (snd e) = Some r \<Longrightarrow>
      waiters_on (removeAllWaiters w) r = []"
    by (force simp: waiters_on_removeAllWaiters)
  moreover have "\<And>r. Some r \<notin> liveAcquireTimeline w ` snd ` set (syncPendingStates w) \<Longrightarrow>
      resources (removeAllWaiters w) r = resources w r"
    by (simp add: resources_removeAllWaiters)
  moreover have "buffer (pending w) = None \<and> newBuffer (pending w) \<and> texture (pending w) = None \<Longrightarrow>
      \<exists>w'. surfacePrecommit w = Some w' \<and> syncPendingStates w' = []
           \<and> resources w' = resources (removeAllWaiters w)"
    by (simp add: surfacePrecommit_def Let_def commitPendingState_def)
  ultimately show ?thesis
    by (simp add: destroyAdapter_def)
qed

lemma ex_null_commit_simps:
  "buffer (pending ex_null_commit) = None" "newBuffer (pending ex_null_commit)"
  "texture (pending ex_null_commit) = None"
  "syncPendingStates ex_null_commit = [(0, ex_queued_state)]"
  "waiters_on ex_null_commit = waiters_on ex_queued"
  "liveAcquireTimeline ex_null_commit = liveAcquireTimeline ex_queued"
  "resources ex_null_commit = resources ex_queued"
proof -
  show "buffer (pending ex_null_commit) = None" "newBuffer (pending ex_null_commit)"
    "texture (pending ex_null_commit) = None"
    by (simp_all add: ex_null_commit_def ex_state_def)
  show "syncPendingStates ex_null_commit = [(0, ex_queued_state)]"
    by (simp add: ex_null_commit_def ex_queued_def)
  show r: "resources ex_null_commit = resources ex_queued"
    by (simp add: ex_null_commit_def)
  show "waiters_on ex_null_commit = waiters_on ex_queued"
    by (rule waiters_on_resources) (rule r)
  show "liveAcquireTimeline ex_null_commit = liveAcquireTimeline ex_queued"
    by (rule liveAcquireTimeline_resources) (rule r)
qed

text \<open>
  The queued state of the example is the one that a commit of buffer 1 on timeline 1
  leaves in the adapter's queue.
\<close>

lemma ex_queued_state_from_commit:
  "map_option syncPendingStates (ex_commit 1 1 ex_world) = Some [(0, ex_queued_state)]"
  by code_simp

lemma waiters_on_ex_queued:
  "waiters_on ex_queued r = (if r = 1 then [(7, Foreign 9), (1, AcquireWaiter 0)] else [])"
  by (simp add: waiters_on_def ex_queued_def ex_world_def ex_timeline_def)

lemma liveAcquireTimeline_ex_queued: "liveAcquireTimeline ex_queued ex_queued_state = Some 1"
  by (simp add: liveAcquireTimeline_def ex_queued_def ex_queued_state_def ex_world_def
        expired_def new_CDRMSyncPointState_def ex_buffer_def ex_attached_def)

text \<open>
  In the example a null buffer is committed while a commit waits on timeline 1, where
  another client has a waiter for value 7; that waiter is removed with the adapter's own,
  and timeline 2 is left alone.
\<close>

theorem removeAllWaiters_clears_whole_timelines_witness:
  "(7, Foreign 9) \<in> set (waiters_on ex_null_commit 1)
   \<and> (0, ex_queued_state) \<in> set (syncPendingStates ex_null_commit)
   \<and> liveAcquireTimeline ex_null_commit ex_queued_state = Some 1
   \<and> waiters_on (removeAllWaiters ex_null_commit) 1 = []
   \<and> Some 2 \<notin> liveAcquireTimeline ex_null_commit ` snd ` set (syncPendingStates ex_null_commit)
   \<and> resources (removeAllWaiters ex_null_commit) 2 = resources ex_null_commit 2
   \<and> buffer (pending ex_null_commit) = None \<and> newBuffer (pending ex_null_commit)
   \<and> texture (pending ex_null_commit) = None
   \<and> (\<exists>w'. surfacePrecommit ex_null_commit = Some w' \<and> syncPendingStates w' = []
         \<and> resources w' = resources (removeAllWaiters ex_null_commit))"
proof -
  note h = ex_null_commit_simps
  have q: "(0, ex_queued_state) \<in> set (syncPendingStates ex_null_commit)"
    by (simp add: h)
  have l: "liveAcquireTimeline ex_null_commit ex_queued_state = Some 1"
    by (simp add: h liveAcquireTimeline_ex_queued)
  have n: "Some 2 \<notin> liveAcquireTimeline ex_null_commit ` snd ` set (syncPendingStates ex_null_commit)"
    using l by (simp add: h(4))
  have f: "(7, Foreign 9) \<in> set (waiters_on ex_null_commit 1)"
    by (simp add: h waiters_on_ex_queued)
  from removeAllWaiters_clears_whole_timelines[of ex_null_commit] q l n f h(1-3)
  show ?thesis by fastforce
qed

section \<open>A null buffer over queued commits\<close>

lemma surfacePrecommit_null:
  "buffer (pending w) = None \<Longrightarrow> newBuffer (pending w) \<Longrightarrow> texture (pending w) = None \<Longrightarrow>
   surfacePrecommit w = Some (commitPendingState (pending w) (removeAllWaiters w))"
  by (simp add: surfacePrecommit_def Let_def)

lemma no_adapter_waiter_after_removeAllWaiters:
  assumes "waiters_tracked w"
  shows "(p, AcquireWaiter i) \<notin> set (waiters_on (removeAllWaiters w) r)"
proof
  assume m: "(p, AcquireWaiter i) \<in> set (waiters_on (removeAllWaiters w) r)"
  then have n: "Some r \<notin> liveAcquireTimeline w ` snd ` set (syncPendingStates w)"
    and o: "(p, AcquireWaiter i) \<in> set (waiters_on w r)"
    by (auto simp: waiters_on_removeAllWaiters split: if_splits)
  from assms o obtain s where "(i, s) \<in> set (syncPendingStates w)"
    "liveAcquireTimeline w s = Some r"
    unfolding waiters_tracked_def by blast
  then have "Some r \<in> liveAcquireTimeline w ` snd ` set (syncPendingStates w)"
    by force
  with n show False by contradiction
qed

text \<open>
  The first branch of the listener (lines 112-116) is written to discard. Where
  \<open>pending.newBuffer\<close> is set and neither a buffer nor a texture is pending, it empties the
  adapter's queue, applies the pending state and leaves no acquire waiter of the adapter
  on any timeline, provided the waiters are where the listener put them. The surface's own
  queue and the callbacks registered with the event loop are not touched by it.
\<close>

lemma null_branch_discards_adapter_queue:
  assumes "buffer (pending w) = None" and "newBuffer (pending w)" and "texture (pending w) = None"
    and "waiters_tracked w"
  shows "\<exists>w'. surfacePrecommit w = Some w'
     \<and> syncPendingStates w' = []
     \<and> applied w' = applied w @ [pending w]
     \<and> current w' = pending w
     \<and> (\<forall>r p i. (p, AcquireWaiter i) \<notin> set (waiters_on w' r))
     \<and> surfPendingStates w' = surfPendingStates w \<and> readable w' = readable w"
proof -
  let ?w' = "commitPendingState (pending w) (removeAllWaiters w)"
  have "(p, AcquireWaiter i) \<notin> set (waiters_on ?w' r)" for r p i
    using no_adapter_waiter_after_removeAllWaiters[OF assms(4)]
    by (simp add: commitPendingState_def)
  moreover have "current ?w' = pending w"
    using assms(1) by (simp add: commitPendingState_def current_commitState)
  ultimately show ?thesis
    using assms(1-3) by (simp add: surfacePrecommit_null commitPendingState_def)
qed

text \<open>
  The attach request leaves \<open>newBuffer\<close> as it is, and the listener clears it when it queues
  a commit (line 146). A commit of a null buffer therefore passes the first branch by:
  the listener applies a state and returns, the commit request applies the pending state,
  and both queues, the timelines and the registered callbacks are as before.
\<close>

lemma attach_newBuffer: "newBuffer (pending (attach buf w)) = newBuffer (pending w)"
  by (simp add: attach_def Let_def split: option.splits prod.splits)

lemma attach_frame:
  "resources (attach buf w) = resources w" "syncPendingStates (attach buf w) = syncPendingStates w"
  "surfPendingStates (attach buf w) = surfPendingStates w" "readable (attach buf w) = readable w"
  "current (attach buf w) = current w" "applied (attach buf w) = applied w"
  "syncobj (attach buf w) = syncobj w" "rejected (pending (attach buf w)) = rejected (pending w)"
  "pendingAcquire (attach buf w) = pendingAcquire w" "pendingRelease (attach buf w) = pendingRelease w"
  "role (attach buf w) = role w" "subsurface_sync (attach buf w) = subsurface_sync w"
  by (simp_all add: attach_def Let_def split: option.splits prod.splits)

lemma attach_null:
  "buffer (pending (attach None w)) = None" "texture (pending (attach None w)) = None"
  "updated_buffer (pending (attach None w))"
  by (simp_all add: attach_def Let_def)

lemma attach_ex_buffer: "pending (attach (Some (ex_buffer n, Some n)) ex_world) = ex_attached n"
  by (simp add: attach_def ex_attached_def ex_world_def)

lemma null_attach_commit_keeps_queues:
  assumes "\<not> rejected (pending w)" and "\<not> newBuffer (pending w)"
  shows "\<exists>w'. setCommit reset (attach None w) = Some w'
     \<and> syncPendingStates w' = syncPendingStates w \<and> surfPendingStates w' = surfPendingStates w
     \<and> resources w' = resources w \<and> readable w' = readable w
     \<and> current w' = pending (attach None w) \<and> last (applied w') = pending (attach None w)"
proof -
  let ?w = "attach None w"
  have n: "\<not> newBuffer (pending ?w)" "\<not> rejected (pending ?w)"
    using assms by (simp_all add: attach_newBuffer attach_frame)
  show ?thesis
  proof (cases "syncobj w")
    case False
    then show ?thesis
      using n by (simp add: setCommit_def attach_frame attach_null Let_def current_commitState)
  next
    case True
    show ?thesis
    proof (cases "buffer (current w) = None")
      case c: True
      have "surfacePrecommit ?w = Some (commitPendingState (pending ?w) ?w)"
        using n c by (simp add: surfacePrecommit_def attach_null attach_frame)
      then show ?thesis
        using True n
        by (simp add: setCommit_def attach_frame attach_null Let_def commitPendingState_def
            current_commitState)
    next
      case c: False
      have "surfacePrecommit ?w =
          Some (commitPendingState ((current w)\<lparr>bufferDamage := [], damage := []\<rparr>)
                  (?w\<lparr>current := (current w)\<lparr>bufferDamage := [], damage := []\<rparr>\<rparr>))"
        using n c by (simp add: surfacePrecommit_def attach_null attach_frame Let_def)
      then show ?thesis
        using True n
        by (simp add: setCommit_def attach_frame attach_null Let_def commitPendingState_def
            current_commitState)
    qed
  qed
qed


section \<open>The listener on a commit with a buffer\<close>

lemma protocolError_result:
  assumes "protocolError w = Some (err, w')"
  shows "\<exists>w0. same_but_log w w0 \<and> (if err then \<exists>e. w' = reject e w0 else w' = w0)"
proof (cases "texture (pending w) = None")
  case True
  then show ?thesis using assms
    by (auto simp: protocolError_def intro!: exI[of _ w])
next
  case False
  from assms False obtain b ta w1 where b: "buffer (pending w) = Some b"
    and ta: "timeline_of (acquire b) w = Some (ta, w1)"
    by (auto simp: protocolError_def split: Option.bind_splits)
  note l1 = timeline_of_same_but_log[OF ta]
  show ?thesis
  proof (cases "ta = None")
    case True
    then show ?thesis using assms False b ta l1
      by (auto simp: protocolError_def)
  next
    case nta: False
    from assms False b ta nta obtain tr w2 where tr: "timeline_of (release b) w1 = Some (tr, w2)"
      by (auto simp: protocolError_def split: Option.bind_splits)
    note l2 = same_but_log_trans[OF l1 timeline_of_same_but_log[OF tr]]
    show ?thesis
    proof (cases "tr = None")
      case True
      then show ?thesis using assms False b ta nta tr l2
        by (auto simp: protocolError_def)
    next
      case ntr: False
      from assms False b ta nta tr ntr obtain a r ta' w3 tr' w4 where
        "acquire b = Some a" "release b = Some r"
        and t3: "timeline a w2 = Some (ta', w3)" and t4: "timeline r w3 = Some (tr', w4)"
        and res: "(err, w') = (if ta' = tr' \<and> m_point r \<le> m_point a
              then (True, reject CONFLICTING_POINTS w4) else (False, w4))"
        by (auto simp: protocolError_def split: Option.bind_splits if_splits)
      have l4: "same_but_log w w4"
        using l2 timeline_same_but_log[OF t3] timeline_same_but_log[OF t4]
        by (blast intro: same_but_log_trans)
      show ?thesis using res l4 by (auto split: if_splits)
    qed
  qed
qed

lemma protocolError_code:
  "protocolError w = Some (True, w') \<Longrightarrow> \<exists>e. errors w' = errors w @ [e] \<and> e \<noteq> NO_SURFACE"
  by (auto simp: protocolError_def reject_def split: if_splits Option.bind_splits
      dest!: timeline_of_same_but_log[THEN same_but_log_fields(2)]
             timeline_same_but_log[THEN same_but_log_fields(2)])

lemma attachAcquire_result:
  assumes "attachAcquire w = Some w1"
  shows "resources w1 = resources w" "errors w1 = errors w" "current w1 = current w"
    "applied w1 = applied w" "syncPendingStates w1 = syncPendingStates w"
    "surfPendingStates w1 = surfPendingStates w" "readable w1 = readable w"
    "pendingRelease w1 = pendingRelease w"
    "pendingAcquire w1 = (if expired w (pendingAcquire w) then pendingAcquire w else empty_point)"
    "(buffer (pending w1) = None) = (buffer (pending w) = None)"
    "rejected (pending w1) = rejected (pending w)" "nextId w1 = nextId w"
  using assms by (auto simp: attachAcquire_def split: if_splits Option.bind_splits)

lemma attachRelease_result:
  assumes "attachRelease w = Some w1"
  shows "resources w1 = resources w" "errors w1 = errors w" "current w1 = current w"
    "applied w1 = applied w" "syncPendingStates w1 = syncPendingStates w"
    "surfPendingStates w1 = surfPendingStates w" "readable w1 = readable w"
    "pendingAcquire w1 = pendingAcquire w"
    "pendingRelease w1 = (if expired w (pendingRelease w) then pendingRelease w else empty_point)"
    "(buffer (pending w1) = None) = (buffer (pending w) = None)"
    "rejected (pending w1) = rejected (pending w)" "nextId w1 = nextId w"
  using assms by (auto simp: attachRelease_def split: if_splits Option.bind_splits)

lemma addWaiter_result:
  assumes "addWaiter cb p w = Some (ok, p', w')"
  shows "expired w' = expired w" "errors w' = errors w" "current w' = current w"
    "applied w' = applied w" "syncPendingStates w' = syncPendingStates w"
    "surfPendingStates w' = surfPendingStates w" "readable w' = readable w"
    "pendingAcquire w' = pendingAcquire w" "pendingRelease w' = pendingRelease w"
    "pending w' = pending w" "nextId w' = nextId w"
proof -
  show "expired w' = expired w"
  proof (cases "expired w p")
    case True
    then show ?thesis using assms
      by (auto simp: addWaiter_def logERR_def intro!: expired_resources)
  next
    case False
    then obtain r res t where "resources w r = Some res" "res_timeline res = Some t"
      "w' = set_timeline r res (snd (tl_addWaiter cb (m_point p) t)) w"
      using assms
      by (auto simp: addWaiter_def Let_def deref_def tl_addWaiter_def
          split: Option.bind_splits option.splits)
    then show ?thesis by (simp add: expired_set_timeline)
  qed
qed (use assms in \<open>auto simp: addWaiter_def Let_def logERR_def set_timeline_def tl_addWaiter_def
      split: if_splits Option.bind_splits\<close>)

lemma enqueueSynced_result:
  assumes "enqueueSynced w = Some w'"
  shows "expired w' = expired w" "errors w' = errors w" "current w' = current w"
    "applied w' = applied w" "surfPendingStates w' = surfPendingStates w"
    "readable w' = readable w"
    "pendingAcquire w' = pendingAcquire w" "pendingRelease w' = pendingRelease w"
proof -
  let ?w1 = "w\<lparr>syncPendingStates := syncPendingStates w @ [(nextId w, pending w)],
               nextId := Suc (nextId w),
               pending := (pending w)\<lparr>damage := [], bufferDamage := [], newBuffer := False,
                                       buffer := None\<rparr>\<rparr>"
  from assms obtain b rel releaser rel' w2 acq ok acq' w3 where
    c: "createSyncRelease rel ?w1 = Some (releaser, rel', w2)"
    and a: "addWaiter (AcquireWaiter (nextId w)) acq w2 = Some (ok, acq', w3)"
    and w': "w' = w3\<lparr>syncPendingStates :=
                   modify_state (nextId w)
                     (\<lambda>s. s\<lparr>buffer := Some (b\<lparr>syncReleaser := releaser, release := Some rel',
                                               acquire := Some acq'\<rparr>)\<rparr>)
                     (syncPendingStates w3)\<rparr>"
    by (auto simp: enqueueSynced_def Let_def split: Option.bind_splits)
  note l = same_but_log_fields[OF createSyncRelease_same_but_log[OF c]]
  note r = addWaiter_result[OF a]
  have "expired w2 = expired ?w1" by (rule expired_resources) (simp add: l)
  moreover have "expired ?w1 = expired w" by (rule expired_resources) simp
  ultimately have "expired w3 = expired w" using r(1) by simp
  moreover have "expired w' = expired w3" by (rule expired_resources) (simp add: w')
  ultimately show "expired w' = expired w" by simp
  show "errors w' = errors w" "current w' = current w" "applied w' = applied w"
    "surfPendingStates w' = surfPendingStates w" "readable w' = readable w"
    "pendingAcquire w' = pendingAcquire w" "pendingRelease w' = pendingRelease w"
    by (simp_all add: w' r l)
qed

lemma surfacePrecommit_real:
  "buffer (pending w) \<noteq> None \<Longrightarrow>
   surfacePrecommit w = do {
        w1 \<leftarrow> attachAcquire w;
        w2 \<leftarrow> attachRelease w1;
        (err, w3) \<leftarrow> protocolError w2;
        if err then Some w3 else enqueueSynced w3
      }"
  by (auto simp: surfacePrecommit_def)

lemma surfacePrecommit_no_buffer:
  assumes "buffer (pending w) = None" and "surfacePrecommit w = Some w'"
  shows "pendingAcquire w' = pendingAcquire w" "pendingRelease w' = pendingRelease w"
    "errors w' = errors w"
proof -
  have "\<not> (newBuffer (pending w) \<and> texture (pending w) \<noteq> None)"
  proof
    assume n: "newBuffer (pending w) \<and> texture (pending w) \<noteq> None"
    then have "surfacePrecommit w = do {
        w1 \<leftarrow> attachAcquire w;
        w2 \<leftarrow> attachRelease w1;
        (err, w3) \<leftarrow> protocolError w2;
        if err then Some w3 else enqueueSynced w3
      }"
      using assms(1) by (auto simp: surfacePrecommit_def)
    with assms(2) obtain w1 w2 where a: "attachAcquire w = Some w1" and r: "attachRelease w1 = Some w2"
      and p: "protocolError w2 \<noteq> None"
      by (auto split: Option.bind_splits)
    have "w1 = w" using a assms(1) by (auto simp: attachAcquire_def split: if_splits)
    then have "w2 = w" using r assms(1) by (auto simp: attachRelease_def split: if_splits)
    then have "protocolError w2 = None" using n assms(1) by (auto simp: protocolError_def)
    with p show False by contradiction
  qed
  then have "surfacePrecommit w =
     (if newBuffer (pending w)
      then Some (commitPendingState (pending w) (removeAllWaiters w))
      else if buffer (current w) \<noteq> None
      then Some (commitPendingState ((current w)\<lparr>bufferDamage := [], damage := []\<rparr>)
                  (w\<lparr>current := (current w)\<lparr>bufferDamage := [], damage := []\<rparr>\<rparr>))
      else Some (commitPendingState (pending w) w))"
    using assms(1) by (auto simp: surfacePrecommit_def Let_def)
  with assms(2) show "pendingAcquire w' = pendingAcquire w" "pendingRelease w' = pendingRelease w"
    "errors w' = errors w"
    by (auto simp: commitPendingState_def split: if_splits)
qed

lemma surfacePrecommit_error:
  assumes "surfacePrecommit w = Some w1" and "errors w1 \<noteq> errors w"
  shows "rejected (pending w1)" "current w1 = current w" "applied w1 = applied w"
    "syncPendingStates w1 = syncPendingStates w" "surfPendingStates w1 = surfPendingStates w"
    "resources w1 = resources w" "readable w1 = readable w"
    "\<exists>e. errors w1 = errors w @ [e] \<and> e \<noteq> NO_SURFACE"
proof -
  have b: "buffer (pending w) \<noteq> None"
    using assms surfacePrecommit_no_buffer(3) by blast
  from assms(1) obtain wa wb err w3 where a: "attachAcquire w = Some wa"
    and r: "attachRelease wa = Some wb" and p: "protocolError wb = Some (err, w3)"
    and e: "(if err then Some w3 else enqueueSynced w3) = Some w1"
    unfolding surfacePrecommit_real[OF b] by (auto split: Option.bind_splits)
  note fa = attachAcquire_result[OF a] and fr = attachRelease_result[OF r]
  from protocolError_result[OF p] obtain w0 where l: "same_but_log wb w0"
    and c: "if err then \<exists>e. w3 = reject e w0 else w3 = w0"
    by blast
  note fl = same_but_log_fields[OF l]
  have err: err
  proof (rule ccontr)
    assume "\<not> err"
    then have "enqueueSynced w0 = Some w1" using e c by simp
    from enqueueSynced_result(2)[OF this] have "errors w1 = errors w"
      by (simp add: fl fr fa)
    with assms(2) show False by contradiction
  qed
  then obtain e' where w1: "w1 = reject e' w0" using c e by auto
  show "rejected (pending w1)" "current w1 = current w" "applied w1 = applied w"
    "syncPendingStates w1 = syncPendingStates w" "surfPendingStates w1 = surfPendingStates w"
    "resources w1 = resources w" "readable w1 = readable w"
    by (simp_all add: w1 reject_def fl fr fa)
  from protocolError_code[of wb w3] p err e
  show "\<exists>e. errors w1 = errors w @ [e] \<and> e \<noteq> NO_SURFACE"
    by (auto simp: fr fa)
qed

text \<open>
  C5. When the validation of a commit raises a protocol error, the pending state is marked
  rejected, and the commit request drops the pending buffer and returns: \<open>current\<close>, the
  history of applied states, both queues and all waiters are as before the commit.
\<close>

theorem protocol_error_leaves_current:
  assumes "syncobj w" and "surfacePrecommit w = Some w1" and "errors w1 \<noteq> errors w"
  shows "rejected (pending w1)
     \<and> (\<exists>e. errors w1 = errors w @ [e] \<and> e \<noteq> NO_SURFACE)
     \<and> (\<exists>w'. setCommit reset w = Some w'
          \<and> current w' = current w \<and> applied w' = applied w
          \<and> buffer (pending w') = None \<and> \<not> rejected (pending w')
          \<and> syncPendingStates w' = syncPendingStates w
          \<and> surfPendingStates w' = surfPendingStates w
          \<and> resources w' = resources w \<and> readable w' = readable w)"
  using surfacePrecommit_error[OF assms(2,3)] assms(1,2)
  by (simp add: setCommit_def dropPendingBuffer_def)

lemma ex_validate_slots:
  "pendingAcquire (ex_validate ta va tr vr) = empty_point"
  "pendingRelease (ex_validate ta va tr vr) = empty_point"
  "syncobj (ex_validate ta va tr vr)"
  "errors (ex_validate ta va tr vr) = []"
  by (simp_all add: ex_validate_def ex_world_def)

lemma surfacePrecommit_ex_conflict:
  "surfacePrecommit (ex_validate 1 5 1 5) = Some (reject CONFLICTING_POINTS (ex_validate 1 5 1 5))"
proof -
  note a = ex_validate_wellformed[where ta = 1 and va = 5 and tr = 1 and vr = 5,
      OF disjI1[OF refl] disjI1[OF refl]]
  have "protocolError (ex_validate 1 5 1 5) =
          Some (True, reject CONFLICTING_POINTS (ex_validate 1 5 1 5))"
    using protocolError_live_points[OF a(1,2) _ _ a(3,4)]
    by (simp add: new_CDRMSyncPointState_def)
  moreover have "buffer (pending (ex_validate 1 5 1 5)) \<noteq> None" using a(2) by simp
  ultimately show ?thesis
    by (simp add: surfacePrecommit_real attachAcquire_def attachRelease_def ex_validate_slots)
qed

theorem protocol_error_leaves_current_witness:
  "syncobj (ex_validate 1 5 1 5)
   \<and> surfacePrecommit (ex_validate 1 5 1 5) = Some (reject CONFLICTING_POINTS (ex_validate 1 5 1 5))
   \<and> errors (reject CONFLICTING_POINTS (ex_validate 1 5 1 5)) \<noteq> errors (ex_validate 1 5 1 5)
   \<and> rejected (pending (reject CONFLICTING_POINTS (ex_validate 1 5 1 5)))
   \<and> (\<exists>w'. setCommit id (ex_validate 1 5 1 5) = Some w'
          \<and> current w' = current (ex_validate 1 5 1 5)
          \<and> applied w' = applied (ex_validate 1 5 1 5)
          \<and> buffer (pending w') = None \<and> \<not> rejected (pending w'))"
proof -
  have e: "errors (reject CONFLICTING_POINTS (ex_validate 1 5 1 5)) \<noteq> errors (ex_validate 1 5 1 5)"
    by (simp add: reject_def)
  from protocol_error_leaves_current[OF ex_validate_slots(3) surfacePrecommit_ex_conflict e, of id]
    ex_validate_slots(3)[of 1 5 1 5] surfacePrecommit_ex_conflict e
  show ?thesis by auto
qed

section \<open>The staged points\<close>

lemma protocolError_accepted:
  assumes "protocolError w = Some (False, w')"
  shows "w' = w \<and> (\<exists>b a r. buffer (pending w) = Some b \<and> acquire b = Some a \<and> release b = Some r
           \<and> \<not> expired w a \<and> \<not> expired w r)"
proof -
  have t: "texture (pending w) \<noteq> None"
  proof
    assume "texture (pending w) = None"
    then have "protocolError w = Some (True, reject NO_BUFFER w)"
      by (simp add: protocolError_def)
    with assms show False by simp
  qed
  with assms obtain b ta w1 where b: "buffer (pending w) = Some b"
    and ta: "timeline_of (acquire b) w = Some (ta, w1)"
    by (auto simp: protocolError_def split: Option.bind_splits)
  have nta: "ta \<noteq> None"
  proof
    assume "ta = None"
    then have "protocolError w = Some (True, reject NO_ACQUIRE_POINT w1)"
      using t b ta by (auto simp: protocolError_def)
    with assms show False by simp
  qed
  with timeline_of_Some[OF ta] obtain a where a: "acquire b = Some a" "\<not> expired w a"
    by auto
  then have w1: "w1 = w" using ta by (simp add: timeline_of_def timeline_live)
  from assms t b ta nta obtain tr w2 where tr: "timeline_of (release b) w = Some (tr, w2)"
    by (auto simp: protocolError_def w1 split: Option.bind_splits)
  have ntr: "tr \<noteq> None"
  proof
    assume "tr = None"
    then have "protocolError w = Some (True, reject NO_RELEASE_POINT w2)"
      using t b ta nta tr by (auto simp: protocolError_def w1)
    with assms show False by simp
  qed
  with timeline_of_Some[OF tr] obtain r where r: "release b = Some r" "\<not> expired w r"
    by auto
  from protocolError_live_points[OF t b a(1) r(1) a(2) r(2)] assms
  have "w' = w" by (auto split: if_splits)
  then show ?thesis using b a r by auto
qed

lemma enqueueSynced_live:
  assumes "buffer (pending w) = Some b" and "acquire b = Some a" and "release b = Some r"
    and "\<not> expired w a" and "\<not> expired w r"
  shows "\<exists>w'. enqueueSynced w = Some w'
     \<and> length (syncPendingStates w') = Suc (length (syncPendingStates w))
     \<and> last (syncPendingStates w') =
         (nextId w, (pending w)\<lparr>buffer := Some (b
            \<lparr>syncReleaser := Some \<lparr>rel_timeline = m_resource r, rel_point = m_point r\<rparr>,
             release := Some (r\<lparr>m_releaseTaken := True\<rparr>),
             acquire := Some (a\<lparr>m_acquireCommitted := True\<rparr>)\<rparr>)\<rparr>)
     \<and> buffer (pending w') = None"
proof -
  obtain ra resa ta where ra: "m_resource a = Some ra" "resources w ra = Some resa"
    "res_timeline resa = Some ta"
    using assms(4) by (auto simp: expired_def split: option.splits)
  obtain rr resr tr where rr: "m_resource r = Some rr" "resources w rr = Some resr"
    "res_timeline resr = Some tr"
    using assms(5) by (auto simp: expired_def split: option.splits)
  show ?thesis
    using assms ra rr
    by (simp add: enqueueSynced_def Let_def createSyncRelease_def addWaiter_def expired_def
        deref_def timeline_ptr_def logERR_def tl_addWaiter_def set_timeline_def modify_state_def)
qed

lemma attach_points_pending:
  assumes "buffer (pending w) = Some b" and "attachAcquire w = Some wa"
    and "attachRelease wa = Some wb"
  shows "pending wb = (pending w)\<lparr>buffer := Some (b
           \<lparr>acquire := (if expired w (pendingAcquire w) then acquire b else Some (pendingAcquire w)),
            release := (if expired w (pendingRelease w) then release b else Some (pendingRelease w))\<rparr>)\<rparr>"
proof -
  have p: "(pending w)\<lparr>buffer := Some b\<rparr> = pending w"
    using assms(1) by simp
  have e: "expired wa = expired w"
    by (rule expired_resources) (simp add: attachAcquire_result[OF assms(2)])
  have a: "pending wa = (pending w)\<lparr>buffer := Some (b
           \<lparr>acquire := (if expired w (pendingAcquire w) then acquire b else Some (pendingAcquire w))\<rparr>)\<rparr>"
    using assms(1,2) p by (auto simp: attachAcquire_def split: if_splits)
  have "pendingRelease wa = pendingRelease w"
    by (simp add: attachAcquire_result[OF assms(2)])
  then show ?thesis
    using assms(3) a e by (auto simp: attachRelease_def split: if_splits)
qed

lemma timeline_total: "\<exists>x w'. timeline p w = Some (x, w')"
proof (cases "expired w p")
  case True
  then show ?thesis by (simp add: timeline_def)
next
  case False
  then show ?thesis using timeline_live by blast
qed

lemma timeline_of_total: "\<exists>x w'. timeline_of p w = Some (x, w')"
  using timeline_total by (cases p) (auto simp: timeline_of_def)

lemma protocolError_total:
  assumes "buffer (pending w) = Some b"
  shows "\<exists>err w'. protocolError w = Some (err, w')"
proof (cases "texture (pending w) = None")
  case True
  then have "protocolError w = Some (True, reject NO_BUFFER w)"
    by (simp add: protocolError_def)
  then show ?thesis by blast
next
  case False
  obtain ta w1 where ta: "timeline_of (acquire b) w = Some (ta, w1)"
    using timeline_of_total by blast
  show ?thesis
  proof (cases "ta = None")
    case True
    then have "protocolError w = Some (True, reject NO_ACQUIRE_POINT w1)"
      using False assms ta by (auto simp: protocolError_def)
    then show ?thesis by blast
  next
    case nta: False
    obtain tr w2 where tr: "timeline_of (release b) w1 = Some (tr, w2)"
      using timeline_of_total by blast
    show ?thesis
    proof (cases "tr = None")
      case True
      then have "protocolError w = Some (True, reject NO_RELEASE_POINT w2)"
        using False assms ta nta tr by (auto simp: protocolError_def)
      then show ?thesis by blast
    next
      case ntr: False
      from timeline_of_Some[OF ta] nta obtain a where a: "acquire b = Some a" by auto
      from timeline_of_Some[OF tr] ntr obtain r where r: "release b = Some r" by auto
      obtain ta' w3 where t3: "timeline a w2 = Some (ta', w3)"
        using timeline_total by blast
      obtain tr' w4 where t4: "timeline r w3 = Some (tr', w4)"
        using timeline_total by blast
      have "protocolError w =
          Some (if ta' = tr' \<and> m_point r \<le> m_point a
                then (True, reject CONFLICTING_POINTS w4) else (False, w4))"
        using False assms ta nta tr ntr a r t3 t4 by (auto simp: protocolError_def)
      then show ?thesis by (cases "ta' = tr' \<and> m_point r \<le> m_point a") auto
    qed
  qed
qed

lemma surfacePrecommit_total:
  assumes "buffer (pending w) = Some b"
  shows "\<exists>w'. surfacePrecommit w = Some w'"
proof -
  have b: "buffer (pending w) \<noteq> None" using assms by simp
  have "attachAcquire w \<noteq> None"
    using assms by (simp add: attachAcquire_def)
  then obtain wa where a: "attachAcquire w = Some wa" by blast
  have ba: "buffer (pending wa) \<noteq> None"
    using attachAcquire_result(10)[OF a] b by simp
  then have "attachRelease wa \<noteq> None"
    by (auto simp: attachRelease_def)
  then obtain wb where r: "attachRelease wa = Some wb" by blast
  have "buffer (pending wb) \<noteq> None"
    using attachRelease_result(10)[OF r] ba by simp
  then obtain b' where "buffer (pending wb) = Some b'" by auto
  from protocolError_total[OF this] obtain err w3 where p: "protocolError wb = Some (err, w3)"
    by blast
  show ?thesis
  proof (cases err)
    case True
    then show ?thesis
      unfolding surfacePrecommit_real[OF b] using a r p by simp
  next
    case False
    from protocolError_accepted[of wb w3] p False obtain b0 a0 r0 where "w3 = wb"
      and v: "buffer (pending wb) = Some b0" "acquire b0 = Some a0" "release b0 = Some r0"
        "\<not> expired wb a0" "\<not> expired wb r0"
      by auto
    from enqueueSynced_live[OF v] obtain w' where "enqueueSynced wb = Some w'" by blast
    then show ?thesis
      unfolding surfacePrecommit_real[OF b] using a r p False \<open>w3 = wb\<close> by simp
  qed
qed

lemma surfacePrecommit_attaches_staged:
  assumes "buffer (pending w) = Some b" and "surfacePrecommit w = Some w'"
  shows "let b' = b\<lparr>acquire := (if expired w (pendingAcquire w) then acquire b
                                else Some (pendingAcquire w)),
                    release := (if expired w (pendingRelease w) then release b
                                else Some (pendingRelease w))\<rparr>
     in pendingAcquire w' =
           (if expired w (pendingAcquire w) then pendingAcquire w else empty_point)
      \<and> pendingRelease w' =
           (if expired w (pendingRelease w) then pendingRelease w else empty_point)
      \<and> expired w' (pendingAcquire w') \<and> expired w' (pendingRelease w')
      \<and> (if errors w' = errors w
          then \<exists>a r. acquire b' = Some a \<and> release b' = Some r
                 \<and> length (syncPendingStates w') = Suc (length (syncPendingStates w))
                 \<and> last (syncPendingStates w') =
                     (nextId w, (pending w)\<lparr>buffer := Some (b'
                        \<lparr>syncReleaser := Some \<lparr>rel_timeline = m_resource r, rel_point = m_point r\<rparr>,
                         release := Some (r\<lparr>m_releaseTaken := True\<rparr>),
                         acquire := Some (a\<lparr>m_acquireCommitted := True\<rparr>)\<rparr>)\<rparr>)
                 \<and> buffer (pending w') = None
          else pending w' = (pending w)\<lparr>buffer := Some b', rejected := True\<rparr>
             \<and> syncPendingStates w' = syncPendingStates w)"
proof -
  define b' where "b' = b\<lparr>acquire := (if expired w (pendingAcquire w) then acquire b
                                else Some (pendingAcquire w)),
                    release := (if expired w (pendingRelease w) then release b
                                else Some (pendingRelease w))\<rparr>"
  define Q where "Q = (if errors w' = errors w
          then \<exists>a r. acquire b' = Some a \<and> release b' = Some r
                 \<and> length (syncPendingStates w') = Suc (length (syncPendingStates w))
                 \<and> last (syncPendingStates w') =
                     (nextId w, (pending w)\<lparr>buffer := Some (b'
                        \<lparr>syncReleaser := Some \<lparr>rel_timeline = m_resource r, rel_point = m_point r\<rparr>,
                         release := Some (r\<lparr>m_releaseTaken := True\<rparr>),
                         acquire := Some (a\<lparr>m_acquireCommitted := True\<rparr>)\<rparr>)\<rparr>)
                 \<and> buffer (pending w') = None
          else pending w' = (pending w)\<lparr>buffer := Some b', rejected := True\<rparr>
             \<and> syncPendingStates w' = syncPendingStates w)"
  have b: "buffer (pending w) \<noteq> None" using assms(1) by simp
  from assms(2) obtain wa wb err w3 where a: "attachAcquire w = Some wa"
    and r: "attachRelease wa = Some wb" and p: "protocolError wb = Some (err, w3)"
    and e: "(if err then Some w3 else enqueueSynced w3) = Some w'"
    unfolding surfacePrecommit_real[OF b] by (auto split: Option.bind_splits)
  note fa = attachAcquire_result[OF a] and fr = attachRelease_result[OF r]
  have pb: "pending wb = (pending w)\<lparr>buffer := Some b'\<rparr>"
    unfolding b'_def by (rule attach_points_pending[OF assms(1) a r])
  have ea: "expired wa = expired w" by (rule expired_resources) (simp add: fa)
  have eb: "expired wb = expired w" by (rule expired_resources) (simp add: fa fr)
  have sa: "pendingAcquire wb =
      (if expired w (pendingAcquire w) then pendingAcquire w else empty_point)"
    by (simp add: fr fa)
  have sr: "pendingRelease wb =
      (if expired w (pendingRelease w) then pendingRelease w else empty_point)"
    by (simp add: fr fa ea)
  have main: "Q \<and> expired w' = expired w \<and> pendingAcquire w' = pendingAcquire wb
      \<and> pendingRelease w' = pendingRelease wb"
  proof (cases err)
    case True
    from protocolError_result[OF p] True obtain w0 e' where l: "same_but_log wb w0"
      and w3: "w3 = reject e' w0"
      by auto
    note fl = same_but_log_fields[OF l]
    have w': "w' = reject e' w0" using e True w3 by simp
    have "expired (reject e' w0) = expired w"
      using expired_resources[of "reject e' w0" wb] eb by (simp add: reject_def fl)
    then show ?thesis
      unfolding Q_def by (simp add: w' reject_def fl fr fa pb)
  next
    case False
    from protocolError_accepted[of wb w3] p False obtain b0 a0 r0 where w3: "w3 = wb"
      and v: "buffer (pending wb) = Some b0" "acquire b0 = Some a0" "release b0 = Some r0"
        "\<not> expired wb a0" "\<not> expired wb r0"
      by auto
    have b0: "b0 = b'" using v(1) pb by simp
    have q: "enqueueSynced wb = Some w'" using e False w3 by simp
    from enqueueSynced_live[OF v] q
    have l: "length (syncPendingStates w') = Suc (length (syncPendingStates wb))"
      "last (syncPendingStates w') =
           (nextId wb, (pending wb)\<lparr>buffer := Some (b0
            \<lparr>syncReleaser := Some \<lparr>rel_timeline = m_resource r0, rel_point = m_point r0\<rparr>,
             release := Some (r0\<lparr>m_releaseTaken := True\<rparr>),
             acquire := Some (a0\<lparr>m_acquireCommitted := True\<rparr>)\<rparr>)\<rparr>)"
      "buffer (pending w') = None"
      by auto
    note er = enqueueSynced_result[OF q]
    have "errors w' = errors w" by (simp add: er fr fa)
    moreover have "expired w' = expired w" by (simp add: er eb)
    ultimately show ?thesis
      unfolding Q_def using v(2,3) l by (simp add: b0 er fr fa pb)
  qed
  show ?thesis
    unfolding Let_def b'_def[symmetric] Q_def[symmetric]
    using main sa sr by simp
qed

text \<open>
  C7, as amended. The listener returns on every commit that has a buffer attached, and
  such a commit consumes the staged points. Each staged point that has not expired is
  attached to the buffer, as its acquire or as its release point, and its slot is reset to
  the empty point; a staged point that has expired stays in its slot and the buffer keeps
  the point it had. The commit carries the buffer with these points: when it is accepted,
  in the state that is queued last, with the acquire point marked committed and the
  release point marked taken by its releaser; when it is rejected, as the pending buffer
  of the rejected state. After the commit neither slot holds a point that has not expired.
\<close>

theorem staged_points_consumed_by_buffer_commit:
  assumes "buffer (pending w) = Some b"
  shows "\<exists>w'. surfacePrecommit w = Some w' \<and>
    (let b' = b\<lparr>acquire := (if expired w (pendingAcquire w) then acquire b
                                else Some (pendingAcquire w)),
                    release := (if expired w (pendingRelease w) then release b
                                else Some (pendingRelease w))\<rparr>
     in pendingAcquire w' =
           (if expired w (pendingAcquire w) then pendingAcquire w else empty_point)
      \<and> pendingRelease w' =
           (if expired w (pendingRelease w) then pendingRelease w else empty_point)
      \<and> expired w' (pendingAcquire w') \<and> expired w' (pendingRelease w')
      \<and> (if errors w' = errors w
          then \<exists>a r. acquire b' = Some a \<and> release b' = Some r
                 \<and> length (syncPendingStates w') = Suc (length (syncPendingStates w))
                 \<and> last (syncPendingStates w') =
                     (nextId w, (pending w)\<lparr>buffer := Some (b'
                        \<lparr>syncReleaser := Some \<lparr>rel_timeline = m_resource r, rel_point = m_point r\<rparr>,
                         release := Some (r\<lparr>m_releaseTaken := True\<rparr>),
                         acquire := Some (a\<lparr>m_acquireCommitted := True\<rparr>)\<rparr>)\<rparr>)
                 \<and> buffer (pending w') = None
          else pending w' = (pending w)\<lparr>buffer := Some b', rejected := True\<rparr>
             \<and> syncPendingStates w' = syncPendingStates w))"
proof -
  from surfacePrecommit_total[OF assms] obtain w' where s: "surfacePrecommit w = Some w'"
    by blast
  from surfacePrecommit_attaches_staged[OF assms s] s show ?thesis by blast
qed

lemma ex_staged_eq:
  "ex_staged = ex_world\<lparr>pendingAcquire := new_CDRMSyncPointState (Some 1) 5 True,
                        pendingRelease := new_CDRMSyncPointState (Some 1) 6 False\<rparr>"
  by (simp add: ex_staged_def setAcquirePoint_def setReleasePoint_def ex_world_def
      fromResource_def wire_point_def)

lemma live_in_ex_world:
  "resources w = resources ex_world \<Longrightarrow> \<not> expired w (new_CDRMSyncPointState (Some 1) v a)"
  by (simp add: expired_def ex_world_def new_CDRMSyncPointState_def)

lemma ex_real_commit_simps:
  "buffer (pending ex_real_commit) = Some (ex_buffer 1)"
  "pending ex_real_commit = ex_attached 1"
  "pendingAcquire ex_real_commit = new_CDRMSyncPointState (Some 1) 5 True"
  "pendingRelease ex_real_commit = new_CDRMSyncPointState (Some 1) 6 False"
  "resources ex_real_commit = resources ex_world"
  "nextId ex_real_commit = 0" "errors ex_real_commit = []"
  by (simp_all add: ex_real_commit_def ex_staged_eq attach_def ex_attached_def ex_world_def)

lemma ex_expired_commit_simps:
  "buffer (pending ex_expired_commit) = Some (ex_buffer 1)"
  "pending ex_expired_commit = ex_attached 1"
  "pendingAcquire ex_expired_commit = new_CDRMSyncPointState (Some 1) 5 True"
  "pendingRelease ex_expired_commit = new_CDRMSyncPointState (Some 2) 6 False"
  "resources ex_expired_commit = (resources ex_world)(1 := None)"
  "errors ex_expired_commit = []"
  by (simp_all add: ex_expired_commit_def attach_def ex_attached_def ex_world_def
      destroyResource_def setAcquirePoint_def setReleasePoint_def fromResource_def wire_point_def)

theorem staged_points_consumed_by_buffer_commit_witness:
  "buffer (pending ex_real_commit) = Some (ex_buffer 1)
   \<and> pendingAcquire ex_real_commit = new_CDRMSyncPointState (Some 1) 5 True
   \<and> pendingRelease ex_real_commit = new_CDRMSyncPointState (Some 1) 6 False
   \<and> \<not> expired ex_real_commit (pendingAcquire ex_real_commit)
   \<and> \<not> expired ex_real_commit (pendingRelease ex_real_commit)
   \<and> (\<exists>w'. surfacePrecommit ex_real_commit = Some w'
        \<and> errors w' = errors ex_real_commit
        \<and> pendingAcquire w' = empty_point \<and> pendingRelease w' = empty_point
        \<and> expired w' (pendingAcquire w') \<and> expired w' (pendingRelease w')
        \<and> last (syncPendingStates w') =
            (0, (ex_attached 1)\<lparr>buffer := Some ((ex_buffer 1)
               \<lparr>acquire := Some ((new_CDRMSyncPointState (Some 1) 5 True)\<lparr>m_acquireCommitted := True\<rparr>),
                release := Some ((new_CDRMSyncPointState (Some 1) 6 False)\<lparr>m_releaseTaken := True\<rparr>),
                syncReleaser := Some \<lparr>rel_timeline = Some 1, rel_point = 6\<rparr>\<rparr>)\<rparr>))
   \<and> buffer (pending ex_expired_commit) = Some (ex_buffer 1)
   \<and> expired ex_expired_commit (pendingAcquire ex_expired_commit)
   \<and> \<not> expired ex_expired_commit (pendingRelease ex_expired_commit)
   \<and> (\<exists>w'. surfacePrecommit ex_expired_commit = Some w'
        \<and> errors w' = [NO_ACQUIRE_POINT]
        \<and> pendingAcquire w' = new_CDRMSyncPointState (Some 1) 5 True
        \<and> pendingRelease w' = empty_point
        \<and> pending w' =
            (ex_attached 1)\<lparr>buffer := Some ((ex_buffer 1)
               \<lparr>release := Some (new_CDRMSyncPointState (Some 2) 6 False)\<rparr>), rejected := True\<rparr>)"
proof -
  note r = ex_real_commit_simps and x = ex_expired_commit_simps
  have l: "\<not> expired ex_real_commit (new_CDRMSyncPointState (Some 1) v a)" for v a
    by (rule live_in_ex_world) (rule r(5))
  have e: "map_option errors (surfacePrecommit ex_real_commit) = Some []"
    "map_option errors (surfacePrecommit ex_expired_commit) = Some [NO_ACQUIRE_POINT]"
    by code_simp+
  have d: "expired ex_expired_commit (new_CDRMSyncPointState (Some 1) 5 True)"
    "\<not> expired ex_expired_commit (new_CDRMSyncPointState (Some 2) 6 False)"
    by (simp_all add: expired_def x(5) new_CDRMSyncPointState_def ex_world_def)
  have u: "(ex_buffer 1)\<lparr>acquire := None\<rparr> = ex_buffer 1"
    by (simp add: ex_buffer_def)
  have n: "m_resource (new_CDRMSyncPointState q v a) = q"
    "m_point (new_CDRMSyncPointState q v a) = v" for q v a
    by (simp_all add: new_CDRMSyncPointState_def)
  from staged_points_consumed_by_buffer_commit[OF r(1)] l[of 5 True] l[of 6 False] e(1)
  have "\<exists>w'. surfacePrecommit ex_real_commit = Some w'
        \<and> errors w' = errors ex_real_commit
        \<and> pendingAcquire w' = empty_point \<and> pendingRelease w' = empty_point
        \<and> expired w' (pendingAcquire w') \<and> expired w' (pendingRelease w')
        \<and> last (syncPendingStates w') =
            (0, (ex_attached 1)\<lparr>buffer := Some ((ex_buffer 1)
               \<lparr>acquire := Some ((new_CDRMSyncPointState (Some 1) 5 True)\<lparr>m_acquireCommitted := True\<rparr>),
                release := Some ((new_CDRMSyncPointState (Some 1) 6 False)\<lparr>m_releaseTaken := True\<rparr>),
                syncReleaser := Some \<lparr>rel_timeline = Some 1, rel_point = 6\<rparr>\<rparr>)\<rparr>)"
    by (auto simp: Let_def r n ex_buffer_def)
  moreover from staged_points_consumed_by_buffer_commit[OF x(1)] d e(2)
  have "\<exists>w'. surfacePrecommit ex_expired_commit = Some w'
        \<and> errors w' = [NO_ACQUIRE_POINT]
        \<and> pendingAcquire w' = new_CDRMSyncPointState (Some 1) 5 True
        \<and> pendingRelease w' = empty_point
        \<and> pending w' =
            (ex_attached 1)\<lparr>buffer := Some ((ex_buffer 1)
               \<lparr>release := Some (new_CDRMSyncPointState (Some 2) 6 False)\<rparr>), rejected := True\<rparr>"
    by (auto simp: Let_def x u)
  ultimately show ?thesis
    using r(1,3,4) x(1,3,4) l d by simp
qed

text \<open>
  C7 as stated fails, in two ways. A commit without a buffer returns from the listener
  before the staged points are looked at (lemma \<open>surfacePrecommit_no_buffer\<close>): the points
  staged before it are still staged after it, and the next commit attaches them to
  buffer 7. And a staged point that has expired is not taken out of its slot: after the
  commit of buffer 1 in \<open>ex_expired_commit\<close> the acquire slot still holds point 5.
\<close>

theorem staged_points_not_consumed:
  "surfacePrecommit ex_staged = Some (commitPendingState (pending ex_staged) ex_staged)
   \<and> pendingAcquire (commitPendingState (pending ex_staged) ex_staged) =
       new_CDRMSyncPointState (Some 1) 5 True
   \<and> pendingRelease (commitPendingState (pending ex_staged) ex_staged) =
       new_CDRMSyncPointState (Some 1) 6 False
   \<and> \<not> expired (commitPendingState (pending ex_staged) ex_staged)
         (new_CDRMSyncPointState (Some 1) 5 True)
   \<and> map_option queued_points (surfacePrecommit ex_later_commit) =
       Some [(7, Some (Some 1, 5), Some (Some 1, 6))]
   \<and> buffer (pending ex_expired_commit) = Some (ex_buffer 1)
   \<and> map_option pendingAcquire (surfacePrecommit ex_expired_commit) =
       Some (new_CDRMSyncPointState (Some 1) 5 True)
   \<and> new_CDRMSyncPointState (Some 1) 5 True \<noteq> empty_point"
proof -
  have "surfacePrecommit ex_staged = Some (commitPendingState (pending ex_staged) ex_staged)"
    by (simp add: surfacePrecommit_def ex_staged_eq ex_world_def ex_state_def)
  moreover have "\<not> expired (commitPendingState (pending ex_staged) ex_staged)
         (new_CDRMSyncPointState (Some 1) 5 True)"
    by (rule live_in_ex_world) (simp add: commitPendingState_def ex_staged_eq)
  moreover have "map_option queued_points (surfacePrecommit ex_later_commit) =
       Some [(7, Some (Some 1, 5), Some (Some 1, 6))]"
    by code_simp
  moreover have "buffer (pending ex_expired_commit) = Some (ex_buffer 1)"
    by (simp add: ex_expired_commit_def attach_def)
  moreover have "map_option pendingAcquire (surfacePrecommit ex_expired_commit) =
       Some (new_CDRMSyncPointState (Some 1) 5 True)"
    by code_simp
  moreover have "new_CDRMSyncPointState (Some 1) 5 True \<noteq> empty_point"
    by (simp add: new_CDRMSyncPointState_def empty_point_def)
  ultimately show ?thesis
    by (simp add: commitPendingState_def ex_staged_eq)
qed

section \<open>The wait strategy of a commit without an acquire point\<close>

lemma whenReadable_loop_frame [simp]:
  "resources (whenReadable_loop i q w) = resources w"
  "errlog (whenReadable_loop i q w) = errlog w"
  "errors (whenReadable_loop i q w) = errors w"
  "surface_gone (whenReadable_loop i q w) = surface_gone w"
  "pending (whenReadable_loop i q w) = pending w"
  "role (whenReadable_loop i q w) = role w"
  "subsurface_sync (whenReadable_loop i q w) = subsurface_sync w"
  "syncobj (whenReadable_loop i q w) = syncobj w"
  "pendingAcquire (whenReadable_loop i q w) = pendingAcquire w"
  "pendingRelease (whenReadable_loop i q w) = pendingRelease w"
  "syncPendingStates (whenReadable_loop i q w) = syncPendingStates w"
  "readable (whenReadable_loop i q w) = readable w"
  "nextId (whenReadable_loop i q w) = nextId w"
  by (induction i q w rule: whenReadable_loop.induct; simp)+

lemma whenReadable_loop_prefix:
  "i \<notin> set (map fst xs) \<Longrightarrow>
   surfPendingStates (whenReadable_loop i (xs @ (i, st) # ys) w) = (i, st) # ys \<and>
   applied (whenReadable_loop i (xs @ (i, st) # ys) w) = applied w @ map snd xs"
  by (induction xs arbitrary: w) auto

lemma whenReadable_drains:
  assumes "\<not> surface_gone w" and "surfPendingStates w = xs @ (i, st) # ys"
    and "i \<notin> set (map fst xs)"
  shows "\<exists>w'. whenReadable i w = Some w' \<and> applied w' = applied w @ map snd xs @ [st]
       \<and> surfPendingStates w' = ys \<and> resources w' = resources w \<and> readable w' = readable w
       \<and> pending w' = pending w \<and> syncPendingStates w' = syncPendingStates w
       \<and> errors w' = errors w \<and> nextId w' = nextId w
       \<and> current w' = current (commitState st w)"
  using assms whenReadable_loop_prefix[OF assms(3), of st ys w]
  by (simp add: whenReadable_def Let_def current_commitState)

lemma fresh_ids_notin: "fresh_ids w \<Longrightarrow> nextId w \<notin> set (map fst (surfPendingStates w))"
  by (auto simp: fresh_ids_def list_all_iff)

lemma setCommit_queues:
  assumes "\<not> syncobj w" and "\<not> rejected (pending w)" and "updated_buffer (pending w)"
    and "buffer (pending w) = Some b" and "\<not> updated_acquire (pending w)"
  shows "setCommit reset w =
     (let w2 = w\<lparr>surfPendingStates := surfPendingStates w @ [(nextId w, pending w)],
                 nextId := Suc (nextId w), pending := reset (pending w)\<rparr>
      in if isSynchronous b then whenReadable (nextId w) w2
         else if buf_type b = BUFFER_TYPE_DMABUF \<and> dmabuf_success b
         then (case exportSyncFile b of
                 Some syncFd \<Rightarrow> Some (doOnReadable syncFd (WhenReadable (nextId w)) w2)
               | None \<Rightarrow> whenReadable (nextId w) w2)
         else whenReadable (nextId w)
                (logERR ''BUG THIS: wl_surface.commit: no acquire, non-dmabuf, async buffer, needs wait... this shouldn't happen'' w2))"
  using assms by (simp add: setCommit_def Let_def)

lemma immediate_whenReadable:
  assumes "\<not> surface_gone w" and "fresh_ids w"
  shows "\<exists>w'. whenReadable (nextId w)
            (w\<lparr>surfPendingStates := surfPendingStates w @ [(nextId w, st)],
               nextId := Suc (nextId w), pending := p\<rparr>) = Some w'
       \<and> applied w' = applied w @ map snd (surfPendingStates w) @ [st]
       \<and> surfPendingStates w' = [] \<and> resources w' = resources w \<and> readable w' = readable w
       \<and> pending w' = p \<and> syncPendingStates w' = syncPendingStates w
       \<and> errors w' = errors w \<and> current w' = current (commitState st w)"
  using whenReadable_drains[of "w\<lparr>surfPendingStates := surfPendingStates w @ [(nextId w, st)],
               nextId := Suc (nextId w), pending := p\<rparr>" "surfPendingStates w" "nextId w" st "[]"]
    assms fresh_ids_notin[OF assms(2)]
  by (auto simp: current_commitState)

lemma ex_surface_queue_simps:
  "\<not> syncobj (ex_surface_queue p)" "\<not> surface_gone (ex_surface_queue p)"
  "fresh_ids (ex_surface_queue p)" "pending (ex_surface_queue p) = p"
  "surfPendingStates (ex_surface_queue p) = [(0, ex_attached 1)]"
  "applied (ex_surface_queue p) = []" "nextId (ex_surface_queue p) = 1"
  "readable (ex_surface_queue p) = [(11, WhenReadable 0)]"
  "role (ex_surface_queue p) = SURFACE_ROLE_SHELL" "\<not> subsurface_sync (ex_surface_queue p)"
  by (simp_all add: ex_surface_queue_def ex_world_def fresh_ids_def)

lemma ex_shm_simps:
  "\<not> rejected ex_shm" "updated_buffer ex_shm" "\<not> updated_acquire ex_shm"
  "buffer ex_shm = Some ((ex_buffer 2)
      \<lparr>isSynchronous := True, buf_type := BUFFER_TYPE_SHM, dmabuf_success := False\<rparr>)"
  by (simp_all add: ex_shm_def ex_attached_def ex_state_def)

lemma ex_dmabuf_simps:
  "\<not> rejected (ex_dmabuf fd)" "updated_buffer (ex_dmabuf fd)" "\<not> updated_acquire (ex_dmabuf fd)"
  "buffer (ex_dmabuf fd) = Some ((ex_buffer 3)\<lparr>exportSyncFile := fd\<rparr>)"
  by (simp_all add: ex_dmabuf_def ex_attached_def ex_state_def)

text \<open>
  C9. A commit with a synchronous buffer and no acquire point, on a surface without a sync
  adapter, applies in the same turn: the commit request returns with the queued states
  and then the committed state applied, in order, with an empty queue, and with no waiter
  added to a timeline or to the event loop. The current state is then the committed one,
  with its buffer dropped unless the surface has no role or is a synchronized subsurface.
\<close>

theorem synchronous_commit_applies_immediately:
  assumes "\<not> syncobj w" and "\<not> rejected (pending w)" and "updated_buffer (pending w)"
    and "buffer (pending w) = Some b" and "\<not> updated_acquire (pending w)"
    and "isSynchronous b" and "\<not> surface_gone w" and "fresh_ids w"
  shows "\<exists>w'. setCommit reset w = Some w'
     \<and> applied w' = applied w @ map snd (surfPendingStates w) @ [pending w]
     \<and> surfPendingStates w' = []
     \<and> resources w' = resources w \<and> readable w' = readable w
     \<and> pending w' = reset (pending w)
     \<and> current w' =
         (if (role w = SURFACE_ROLE_SUBSURFACE \<and> subsurface_sync w)
             \<or> role w = SURFACE_ROLE_UNASSIGNED
          then pending w else (pending w)\<lparr>buffer := None\<rparr>)"
  using immediate_whenReadable[OF assms(7,8), where st = "pending w" and p = "reset (pending w)"]
    assms(4,6)
  unfolding setCommit_queues[OF assms(1-5)]
  by (auto simp: Let_def current_commitState)

theorem synchronous_commit_applies_immediately_witness:
  "\<not> syncobj (ex_surface_queue ex_shm) \<and> \<not> rejected (pending (ex_surface_queue ex_shm))
   \<and> updated_buffer (pending (ex_surface_queue ex_shm))
   \<and> \<not> updated_acquire (pending (ex_surface_queue ex_shm))
   \<and> \<not> surface_gone (ex_surface_queue ex_shm) \<and> fresh_ids (ex_surface_queue ex_shm)
   \<and> (\<exists>w'. setCommit id (ex_surface_queue ex_shm) = Some w'
        \<and> applied w' = [ex_attached 1, ex_shm]
        \<and> surfPendingStates w' = []
        \<and> resources w' = resources (ex_surface_queue ex_shm)
        \<and> readable w' = [(11, WhenReadable 0)]
        \<and> current w' = ex_shm\<lparr>buffer := None\<rparr>)"
proof -
  have s: "isSynchronous ((ex_buffer 2)
      \<lparr>isSynchronous := True, buf_type := BUFFER_TYPE_SHM, dmabuf_success := False\<rparr>)"
    by simp
  from synchronous_commit_applies_immediately[where w = "ex_surface_queue ex_shm" and reset = id, OF _ _ _ _ _ s]
  show ?thesis
    by (auto simp: ex_surface_queue_simps ex_shm_simps)
qed

text \<open>
  C8. A commit with an asynchronous dmabuf and no acquire point, on a surface without a
  sync adapter: when the implicit fence exports as a valid handle, the state is queued,
  \<open>whenReadable\<close> is registered on the handle, nothing is applied by the request, and the
  callback applies the queued states up to and including this one, which becomes the
  current state; when the export gives no valid handle, the request applies them at once.
\<close>

theorem implicit_fence_commit:
  assumes "\<not> syncobj w" and "\<not> rejected (pending w)" and "updated_buffer (pending w)"
    and "buffer (pending w) = Some b" and "\<not> updated_acquire (pending w)"
    and "\<not> isSynchronous b" and "buf_type b = BUFFER_TYPE_DMABUF" and "dmabuf_success b"
    and "\<not> surface_gone w" and "fresh_ids w"
  shows "(case exportSyncFile b of
            Some syncFd \<Rightarrow>
              (\<exists>w'. setCommit reset w = Some w'
                 \<and> applied w' = applied w
                 \<and> surfPendingStates w' = surfPendingStates w @ [(nextId w, pending w)]
                 \<and> readable w' = readable w @ [(syncFd, WhenReadable (nextId w))]
                 \<and> resources w' = resources w \<and> current w' = current w
                 \<and> (\<exists>w''. run_waiter (WhenReadable (nextId w)) w' = Some w''
                      \<and> applied w'' = applied w @ map snd (surfPendingStates w) @ [pending w]
                      \<and> surfPendingStates w'' = [] \<and> current w'' = pending w))
          | None \<Rightarrow>
              (\<exists>w'. setCommit reset w = Some w'
                 \<and> applied w' = applied w @ map snd (surfPendingStates w) @ [pending w]
                 \<and> surfPendingStates w' = []
                 \<and> resources w' = resources w \<and> readable w' = readable w
                 \<and> current w' = pending w))"
proof (cases "exportSyncFile b")
  case None
  then show ?thesis
    using immediate_whenReadable[OF assms(9,10), where st = "pending w" and p = "reset (pending w)"]
      assms(4,6-8)
    unfolding setCommit_queues[OF assms(1-5)]
    by (auto simp: Let_def current_commitState)
next
  case (Some syncFd)
  let ?w2 = "w\<lparr>surfPendingStates := surfPendingStates w @ [(nextId w, pending w)],
                 nextId := Suc (nextId w), pending := reset (pending w)\<rparr>"
  let ?w' = "doOnReadable syncFd (WhenReadable (nextId w)) ?w2"
  have s: "setCommit reset w = Some ?w'"
    using assms(6-8) Some unfolding setCommit_queues[OF assms(1-5)] by (simp add: Let_def)
  have "\<exists>w''. whenReadable (nextId w) ?w' = Some w''
      \<and> applied w'' = applied ?w' @ map snd (surfPendingStates w) @ [pending w]
      \<and> surfPendingStates w'' = [] \<and> current w'' = pending w"
    using whenReadable_drains[of ?w' "surfPendingStates w" "nextId w" "pending w" "[]"]
      assms(4,6,9) fresh_ids_notin[OF assms(10)]
    by (auto simp: doOnReadable_def current_commitState)
  then show ?thesis
    using Some s by (auto simp: doOnReadable_def run_waiter_def)
qed

theorem implicit_fence_commit_witness:
  "\<not> syncobj (ex_surface_queue (ex_dmabuf (Some 12)))
   \<and> \<not> rejected (pending (ex_surface_queue (ex_dmabuf (Some 12))))
   \<and> updated_buffer (pending (ex_surface_queue (ex_dmabuf (Some 12))))
   \<and> \<not> updated_acquire (pending (ex_surface_queue (ex_dmabuf (Some 12))))
   \<and> \<not> surface_gone (ex_surface_queue (ex_dmabuf (Some 12)))
   \<and> fresh_ids (ex_surface_queue (ex_dmabuf (Some 12)))
   \<and> (\<exists>w'. setCommit id (ex_surface_queue (ex_dmabuf (Some 12))) = Some w'
        \<and> applied w' = []
        \<and> surfPendingStates w' = [(0, ex_attached 1), (1, ex_dmabuf (Some 12))]
        \<and> readable w' = [(11, WhenReadable 0), (12, WhenReadable 1)]
        \<and> (\<exists>w''. run_waiter (WhenReadable 1) w' = Some w''
              \<and> applied w'' = [ex_attached 1, ex_dmabuf (Some 12)]
              \<and> surfPendingStates w'' = [] \<and> current w'' = ex_dmabuf (Some 12)))
   \<and> (\<exists>w'. setCommit id (ex_surface_queue (ex_dmabuf None)) = Some w'
        \<and> applied w' = [ex_attached 1, ex_dmabuf None]
        \<and> surfPendingStates w' = []
        \<and> readable w' = [(11, WhenReadable 0)]
        \<and> current w' = ex_dmabuf None)"
proof -
  have h: "\<not> syncobj (ex_surface_queue (ex_dmabuf fd))"
    "\<not> rejected (pending (ex_surface_queue (ex_dmabuf fd)))"
    "updated_buffer (pending (ex_surface_queue (ex_dmabuf fd)))"
    "buffer (pending (ex_surface_queue (ex_dmabuf fd))) = Some ((ex_buffer 3)\<lparr>exportSyncFile := fd\<rparr>)"
    "\<not> updated_acquire (pending (ex_surface_queue (ex_dmabuf fd)))"
    "\<not> isSynchronous ((ex_buffer 3)\<lparr>exportSyncFile := fd\<rparr>)"
    "buf_type ((ex_buffer 3)\<lparr>exportSyncFile := fd\<rparr>) = BUFFER_TYPE_DMABUF"
    "dmabuf_success ((ex_buffer 3)\<lparr>exportSyncFile := fd\<rparr>)"
    "\<not> surface_gone (ex_surface_queue (ex_dmabuf fd))"
    "fresh_ids (ex_surface_queue (ex_dmabuf fd))" for fd
    by (simp_all add: ex_surface_queue_simps ex_dmabuf_simps ex_buffer_def)
  from implicit_fence_commit[OF h[of "Some 12"], where reset = id]
    implicit_fence_commit[OF h[of None], where reset = id]
    h(1,2,3,5,9,10)[of "Some 12"]
  show ?thesis
    by (auto simp: ex_surface_queue_simps)
qed

section \<open>The invariant of the adapter's waiters\<close>

text \<open>
  That the adapter's acquire waiters sit on the timelines of the queued states, the
  hypothesis of \<open>null_branch_discards_adapter_queue\<close>, is part of an invariant. It holds
  while no commit is queued and no
  waiter is registered, and the two point requests, the precommit listener, the commit
  request, a signal on a timeline, the destruction of a timeline resource and the
  destruction of the adapter preserve it.
\<close>

lemma waiters_on_same_but_log: "same_but_log w w' \<Longrightarrow> waiters_on w' = waiters_on w"
  by (rule waiters_on_resources) (simp add: same_but_log_fields)

lemma addWaiter_waiters:
  assumes "addWaiter cb p w = Some (ok, p', w')"
  shows "if expired w p then waiters_on w' = waiters_on w \<and> p' = p
         else \<exists>r. m_resource p = Some r \<and> m_resource p' = Some r
                \<and> waiters_on w' = (waiters_on w)(r := waiters_on w r @ [(m_point p, cb)])"
proof (cases "expired w p")
  case True
  then show ?thesis using assms
    by (auto simp: addWaiter_def logERR_def intro!: waiters_on_resources)
next
  case False
  then obtain r res t where r: "m_resource p = Some r" "resources w r = Some res"
    "res_timeline res = Some t"
    and w': "w' = set_timeline r res (t\<lparr>tl_waiters := tl_waiters t @ [(m_point p, cb)]\<rparr>) w"
    and p': "p' = p\<lparr>m_acquireCommitted := True\<rparr>"
    using assms
    by (auto simp: addWaiter_def Let_def deref_def tl_addWaiter_def
        split: Option.bind_splits option.splits)
  have "waiters_on w' = (waiters_on w)(r := waiters_on w r @ [(m_point p, cb)])"
    by (rule ext) (simp add: w' waiters_on_def set_timeline_def r)
  then show ?thesis using False r p' by simp
qed

lemma modify_state_fresh:
  "list_all (\<lambda>e. fst e < i) q \<Longrightarrow> modify_state i f (q @ [(i, st)]) = q @ [(i, f st)]"
  by (induction q) (auto simp: modify_state_def)

lemma enqueueSynced_tracked:
  assumes "waiters_tracked w" and "adapter_ids_fresh w" and "enqueueSynced w = Some w'"
  shows "waiters_tracked w' \<and> adapter_ids_fresh w'"
proof -
  let ?i = "nextId w"
  let ?w1 = "w\<lparr>syncPendingStates := syncPendingStates w @ [(?i, pending w)],
               nextId := Suc ?i,
               pending := (pending w)\<lparr>damage := [], bufferDamage := [], newBuffer := False,
                                       buffer := None\<rparr>\<rparr>"
  from assms(3) obtain b rel releaser rel' w2 acq ok acq' w3 where
    b: "buffer (pending w) = Some b" "acquire b = Some acq"
    and c: "createSyncRelease rel ?w1 = Some (releaser, rel', w2)"
    and a: "addWaiter (AcquireWaiter ?i) acq w2 = Some (ok, acq', w3)"
    and w': "w' = w3\<lparr>syncPendingStates :=
                   modify_state ?i
                     (\<lambda>s. s\<lparr>buffer := Some (b\<lparr>syncReleaser := releaser, release := Some rel',
                                               acquire := Some acq'\<rparr>)\<rparr>)
                     (syncPendingStates w3)\<rparr>"
    by (auto simp: enqueueSynced_def Let_def split: Option.bind_splits)
  let ?f = "\<lambda>s. s\<lparr>buffer := Some (b\<lparr>syncReleaser := releaser, release := Some rel',
                                               acquire := Some acq'\<rparr>)\<rparr>"
  note l = same_but_log_fields[OF createSyncRelease_same_but_log[OF c]]
  note r = addWaiter_result[OF a]
  have q3: "syncPendingStates w3 = syncPendingStates w @ [(?i, pending w)]"
    by (simp add: r l)
  have q': "syncPendingStates w' = syncPendingStates w @ [(?i, ?f (pending w))]"
    using assms(2) by (simp add: w' q3 modify_state_fresh adapter_ids_fresh_def)
  have n': "nextId w' = Suc ?i" by (simp add: w' r l)
  have fresh: "adapter_ids_fresh w'"
    using assms(2) by (auto simp: adapter_ids_fresh_def q' n' list_all_iff)
  have e2: "expired w2 = expired w"
    using expired_resources[of w2 ?w1] expired_resources[of ?w1 w] by (simp add: l)
  have e': "expired w' = expired w"
    using expired_resources[of w' w3] r(1) e2 by (simp add: w')
  have live: "liveAcquireTimeline w' = liveAcquireTimeline w"
    by (rule ext) (simp add: liveAcquireTimeline_def e' split: option.splits)
  have wo2: "waiters_on w2 = waiters_on w"
    using waiters_on_resources[of w2 ?w1] waiters_on_resources[of ?w1 w] by (simp add: l)
  have wo': "waiters_on w' = waiters_on w3"
    by (rule waiters_on_resources) (simp add: w')
  have "waiters_tracked w'"
    unfolding waiters_tracked_def
  proof (intro allI impI)
    fix r' p j
    assume m: "(p, AcquireWaiter j) \<in> set (waiters_on w' r')"
    show "\<exists>s. (j, s) \<in> set (syncPendingStates w') \<and> liveAcquireTimeline w' s = Some r'"
    proof (cases "(p, AcquireWaiter j) \<in> set (waiters_on w r')")
      case True
      with assms(1) obtain s where "(j, s) \<in> set (syncPendingStates w)"
        "liveAcquireTimeline w s = Some r'"
        unfolding waiters_tracked_def by blast
      then show ?thesis by (auto simp: q' live)
    next
      case False
      from addWaiter_waiters[OF a] False m
      have ne: "\<not> expired w2 acq" by (auto simp: wo' wo2 split: if_splits)
      with addWaiter_waiters[OF a] obtain r0 where r0: "m_resource acq = Some r0"
        "m_resource acq' = Some r0"
        "waiters_on w3 = (waiters_on w)(r0 := waiters_on w r0 @ [(m_point acq, AcquireWaiter ?i)])"
        by (auto simp: wo2)
      from m False have "r' = r0" "j = ?i"
        by (auto simp: wo' r0(3) split: if_splits)
      moreover have "\<not> expired w acq'"
        using ne r0(1,2) by (simp add: e2[symmetric] expired_def)
      then have "liveAcquireTimeline w' (?f (pending w)) = Some r0"
        by (simp add: live liveAcquireTimeline_def r0)
      ultimately show ?thesis by (auto simp: q')
    qed
  qed
  with fresh show ?thesis by simp
qed

lemma set_adapter_waiter_ids:
  "set (adapter_waiter_ids w r) = {i. \<exists>p. (p, AcquireWaiter i) \<in> set (waiters_on w r)}"
  by (force simp: adapter_waiter_ids_def split: waiter.splits)

lemma adapter_waiter_ids_cong:
  "waiters_on w' = waiters_on w \<Longrightarrow> adapter_waiter_ids w' = adapter_waiter_ids w"
  by (rule ext) (simp add: adapter_waiter_ids_def)

lemma adapter_inv_cong:
  assumes "resources w' = resources w" and "syncPendingStates w' = syncPendingStates w"
    and "nextId w' = nextId w"
  shows "adapter_inv w' = adapter_inv w"
  using waiters_on_resources[OF assms(1)] liveAcquireTimeline_resources[OF assms(1)] assms(2,3)
    adapter_waiter_ids_cong[OF waiters_on_resources[OF assms(1)]]
  by (simp add: adapter_inv_def waiters_tracked_def adapter_ids_fresh_def)

lemma adapter_inv_mono:
  assumes "adapter_inv w" and "resources w' = resources w"
    and "syncPendingStates w' = syncPendingStates w" and "nextId w \<le> nextId w'"
  shows "adapter_inv w'"
  using assms(1,3,4) waiters_on_resources[OF assms(2)] liveAcquireTimeline_resources[OF assms(2)]
    adapter_waiter_ids_cong[OF waiters_on_resources[OF assms(2)]]
  by (auto simp: adapter_inv_def waiters_tracked_def adapter_ids_fresh_def list_all_iff)

lemma adapter_inv_initial:
  assumes "syncPendingStates w = []" and "\<And>r. waiters_on w r = []"
  shows "adapter_inv w"
  using assms
  by (simp add: adapter_inv_def waiters_tracked_def adapter_ids_fresh_def adapter_waiter_ids_def)

lemma adapter_inv_commitState [simp]: "adapter_inv (commitState st w) = adapter_inv w"
  by (rule adapter_inv_cong) simp_all

lemma adapter_inv_removeAllWaiters:
  assumes "adapter_inv w"
  shows "adapter_inv (removeAllWaiters w)"
proof -
  have t: "waiters_tracked w" using assms by (simp add: adapter_inv_def)
  have "adapter_waiter_ids (removeAllWaiters w) r = []" for r
  proof -
    have "set (adapter_waiter_ids (removeAllWaiters w) r) = {}"
      using no_adapter_waiter_after_removeAllWaiters[OF t, of _ _ r]
      by (simp add: set_adapter_waiter_ids)
    then show ?thesis by simp
  qed
  moreover have "waiters_tracked (removeAllWaiters w)"
    using no_adapter_waiter_after_removeAllWaiters[OF t] by (simp add: waiters_tracked_def)
  ultimately show ?thesis
    by (simp add: adapter_inv_def adapter_ids_fresh_def)
qed

lemma enqueueSynced_inv:
  assumes "adapter_inv w" and "enqueueSynced w = Some w'"
  shows "adapter_inv w'"
proof -
  let ?i = "nextId w"
  let ?w1 = "w\<lparr>syncPendingStates := syncPendingStates w @ [(?i, pending w)],
               nextId := Suc ?i,
               pending := (pending w)\<lparr>damage := [], bufferDamage := [], newBuffer := False,
                                       buffer := None\<rparr>\<rparr>"
  have t: "waiters_tracked w" and f: "adapter_ids_fresh w"
    and d: "distinct (map fst (syncPendingStates w))"
    and dw: "\<And>r. distinct (adapter_waiter_ids w r)"
    using assms(1) by (simp_all add: adapter_inv_def)
  from assms(2) obtain b rel releaser rel' w2 acq ok acq' w3 where
    c: "createSyncRelease rel ?w1 = Some (releaser, rel', w2)"
    and a: "addWaiter (AcquireWaiter ?i) acq w2 = Some (ok, acq', w3)"
    and w': "w' = w3\<lparr>syncPendingStates :=
                   modify_state ?i
                     (\<lambda>s. s\<lparr>buffer := Some (b\<lparr>syncReleaser := releaser, release := Some rel',
                                               acquire := Some acq'\<rparr>)\<rparr>)
                     (syncPendingStates w3)\<rparr>"
    by (auto simp: enqueueSynced_def Let_def split: Option.bind_splits)
  let ?f = "\<lambda>s. s\<lparr>buffer := Some (b\<lparr>syncReleaser := releaser, release := Some rel',
                                               acquire := Some acq'\<rparr>)\<rparr>"
  note l = same_but_log_fields[OF createSyncRelease_same_but_log[OF c]]
  note r = addWaiter_result[OF a]
  have q': "syncPendingStates w' = syncPendingStates w @ [(?i, ?f (pending w))]"
    using f by (simp add: w' r l modify_state_fresh adapter_ids_fresh_def)
  have d': "distinct (map fst (syncPendingStates w'))"
    using d f by (auto simp: q' adapter_ids_fresh_def list_all_iff)
  have wo2: "waiters_on w2 = waiters_on w"
    using waiters_on_resources[of w2 ?w1] waiters_on_resources[of ?w1 w] by (simp add: l)
  have wo': "waiters_on w' = waiters_on w3"
    by (rule waiters_on_resources) (simp add: w')
  have old: "j < ?i" if "j \<in> set (adapter_waiter_ids w r0)" for j r0
  proof -
    from that obtain p where "(p, AcquireWaiter j) \<in> set (waiters_on w r0)"
      by (auto simp: set_adapter_waiter_ids)
    with t obtain s where "(j, s) \<in> set (syncPendingStates w)"
      unfolding waiters_tracked_def by blast
    with f show ?thesis by (auto simp: adapter_ids_fresh_def list_all_iff)
  qed
  have "distinct (adapter_waiter_ids w' r0)" for r0
  proof (cases "expired w2 acq")
    case True
    with addWaiter_waiters[OF a] have "waiters_on w' = waiters_on w" by (simp add: wo' wo2)
    then show ?thesis using dw[of r0] by (simp add: adapter_waiter_ids_def)
  next
    case False
    with addWaiter_waiters[OF a] obtain r1 where
      "waiters_on w' = (waiters_on w)(r1 := waiters_on w r1 @ [(m_point acq, AcquireWaiter ?i)])"
      by (auto simp: wo' wo2)
    then have "adapter_waiter_ids w' r0 =
       (if r0 = r1 then adapter_waiter_ids w r1 @ [?i] else adapter_waiter_ids w r0)"
      by (simp add: adapter_waiter_ids_def)
    then show ?thesis using dw[of r0] old[of ?i r0] by auto
  qed
  with enqueueSynced_tracked[OF t f assms(2)] d' show ?thesis
    by (simp add: adapter_inv_def)
qed

lemma adapter_inv_same_but_log: "same_but_log w w' \<Longrightarrow> adapter_inv w' = adapter_inv w"
  by (rule adapter_inv_cong) (simp_all add: same_but_log_fields)

lemma adapter_inv_reject [simp]: "adapter_inv (reject e w) = adapter_inv w"
  by (rule adapter_inv_cong) (simp_all add: reject_def)

lemma attachAcquire_inv: "attachAcquire w = Some w' \<Longrightarrow> adapter_inv w' = adapter_inv w"
  by (rule adapter_inv_cong) (simp_all add: attachAcquire_result)

lemma attachRelease_inv: "attachRelease w = Some w' \<Longrightarrow> adapter_inv w' = adapter_inv w"
  by (rule adapter_inv_cong) (simp_all add: attachRelease_result)

lemma protocolError_inv: "protocolError w = Some (err, w') \<Longrightarrow> adapter_inv w' = adapter_inv w"
  using protocolError_result[of w err w']
  by (auto simp: adapter_inv_same_but_log split: if_splits)

lemma surfacePrecommit_inv:
  assumes "adapter_inv w" and "surfacePrecommit w = Some w'"
  shows "adapter_inv w'"
proof (cases "buffer (pending w) = None")
  case False
  from assms(2) obtain wa wb err w3 where a: "attachAcquire w = Some wa"
    and r: "attachRelease wa = Some wb" and p: "protocolError wb = Some (err, w3)"
    and e: "(if err then Some w3 else enqueueSynced w3) = Some w'"
    unfolding surfacePrecommit_real[OF False] by (auto split: Option.bind_splits)
  have "adapter_inv w3"
    using assms(1) by (simp add: protocolError_inv[OF p] attachRelease_inv[OF r] attachAcquire_inv[OF a])
  then show ?thesis using e enqueueSynced_inv[of w3 w'] by (auto split: if_splits)
next
  case True
  have c: "adapter_inv (w\<lparr>current := x\<rparr>) = adapter_inv w" for x
    by (rule adapter_inv_cong) simp_all
  from True assms(2) have "w' = commitPendingState (pending w) (removeAllWaiters w)
     \<or> w' = commitPendingState ((current w)\<lparr>bufferDamage := [], damage := []\<rparr>)
                  (w\<lparr>current := (current w)\<lparr>bufferDamage := [], damage := []\<rparr>\<rparr>)
     \<or> w' = commitPendingState (pending w) w"
    by (auto simp: surfacePrecommit_def Let_def attachAcquire_def attachRelease_def protocolError_def
        split: if_splits Option.bind_splits)
  then show ?thesis
    using assms(1) adapter_inv_removeAllWaiters[OF assms(1)]
    by (auto simp: commitPendingState_def c)
qed

lemma destroyResource_inv:
  assumes "adapter_inv w"
  shows "adapter_inv (destroyResource r w)"
proof -
  have wo: "waiters_on (destroyResource r w) = (waiters_on w)(r := [])"
    by (rule ext) (simp add: waiters_on_def destroyResource_def)
  have live: "liveAcquireTimeline (destroyResource r w) s =
      (if liveAcquireTimeline w s = Some r then None else liveAcquireTimeline w s)" for s
    by (auto simp: liveAcquireTimeline_def expired_def destroyResource_def split: option.splits)
  have q: "syncPendingStates (destroyResource r w) = syncPendingStates w"
    "nextId (destroyResource r w) = nextId w"
    by (simp_all add: destroyResource_def)
  have "adapter_waiter_ids (destroyResource r w) r0 =
      (if r0 = r then [] else adapter_waiter_ids w r0)" for r0
    by (simp add: adapter_waiter_ids_def wo)
  moreover have "waiters_tracked (destroyResource r w)"
    unfolding waiters_tracked_def
  proof (intro allI impI)
    fix r0 p i
    assume "(p, AcquireWaiter i) \<in> set (waiters_on (destroyResource r w) r0)"
    then have "r0 \<noteq> r" "(p, AcquireWaiter i) \<in> set (waiters_on w r0)"
      by (auto simp: wo split: if_splits)
    with assms obtain s where "(i, s) \<in> set (syncPendingStates w)"
      "liveAcquireTimeline w s = Some r0"
      unfolding adapter_inv_def waiters_tracked_def by blast
    with \<open>r0 \<noteq> r\<close>
    have "(i, s) \<in> set (syncPendingStates (destroyResource r w))
        \<and> liveAcquireTimeline (destroyResource r w) s = Some r0"
      by (simp add: live q)
    then show "\<exists>s. (i, s) \<in> set (syncPendingStates (destroyResource r w))
        \<and> liveAcquireTimeline (destroyResource r w) s = Some r0" ..
  qed
  ultimately show ?thesis
    using assms by (simp add: adapter_inv_def adapter_ids_fresh_def q)
qed

lemma destroyAdapter_inv: "adapter_inv w \<Longrightarrow> adapter_inv (destroyAdapter w)"
  using adapter_inv_removeAllWaiters[of w]
    adapter_inv_cong[of "destroyAdapter w" "removeAllWaiters w"]
  by (simp add: destroyAdapter_def)

lemma setAcquirePoint_inv [simp]: "adapter_inv (setAcquirePoint t hi lo w) = adapter_inv w"
  by (rule adapter_inv_cong) (simp_all add: setAcquirePoint_def)

lemma setReleasePoint_inv [simp]: "adapter_inv (setReleasePoint t hi lo w) = adapter_inv w"
  by (rule adapter_inv_cong) (simp_all add: setReleasePoint_def)

lemma whenReadable_frame:
  assumes "whenReadable i w = Some w'"
  shows "resources w' = resources w" "syncPendingStates w' = syncPendingStates w"
    "nextId w' = nextId w"
  using assms
  by (auto simp: whenReadable_def Let_def split: if_splits list.splits)

lemma acquireWaiter_inv:
  assumes "adapter_inv w" and "\<And>r. i \<notin> set (adapter_waiter_ids w r)"
    and "acquireWaiter i w = Some w'"
  shows "adapter_inv w'" and "resources w' = resources w"
proof -
  show r: "resources w' = resources w"
    using assms(3) by (auto simp: acquireWaiter_def commitPendingState_def Let_def
        split: if_splits Option.bind_splits)
  show "adapter_inv w'"
  proof (cases "surface_gone w")
    case True
    then show ?thesis using assms(1,3) by (simp add: acquireWaiter_def)
  next
    case False
    then have q: "syncPendingStates w' = filter (\<lambda>e. fst e \<noteq> i) (syncPendingStates w)"
      and n: "nextId w' = nextId w"
      using assms(3) by (auto simp: acquireWaiter_def commitPendingState_def Let_def
          split: Option.bind_splits)
    have wo: "waiters_on w' = waiters_on w" by (rule waiters_on_resources) (rule r)
    have live: "liveAcquireTimeline w' = liveAcquireTimeline w"
      by (rule liveAcquireTimeline_resources) (rule r)
    have "waiters_tracked w'"
      unfolding waiters_tracked_def
    proof (intro allI impI)
      fix r0 p j
      assume m: "(p, AcquireWaiter j) \<in> set (waiters_on w' r0)"
      then have "j \<in> set (adapter_waiter_ids w r0)"
        by (auto simp: set_adapter_waiter_ids wo)
      with assms(2) have "j \<noteq> i" by auto
      moreover from m assms(1) obtain s where "(j, s) \<in> set (syncPendingStates w)"
        "liveAcquireTimeline w s = Some r0"
        unfolding adapter_inv_def waiters_tracked_def wo by blast
      ultimately have "(j, s) \<in> set (syncPendingStates w') \<and> liveAcquireTimeline w' s = Some r0"
        by (simp add: q live)
      then show "\<exists>s. (j, s) \<in> set (syncPendingStates w') \<and> liveAcquireTimeline w' s = Some r0" ..
    qed
    moreover have "distinct (map fst (syncPendingStates w'))"
      using assms(1) by (simp add: adapter_inv_def q distinct_map_filter)
    ultimately show ?thesis
      using assms(1) adapter_waiter_ids_cong[OF wo]
      by (auto simp: adapter_inv_def adapter_ids_fresh_def q n list_all_iff)
  qed
qed

lemma run_waiter_inv:
  assumes "adapter_inv w" and "\<And>i r. cb = AcquireWaiter i \<Longrightarrow> i \<notin> set (adapter_waiter_ids w r)"
    and "run_waiter cb w = Some w'"
  shows "adapter_inv w'" and "resources w' = resources w"
proof -
  show "adapter_inv w'"
  proof (cases cb)
    case (AcquireWaiter i)
    then show ?thesis using acquireWaiter_inv(1)[of w i w'] assms by (simp add: run_waiter_def)
  next
    case (WhenReadable i)
    then have "whenReadable i w = Some w'" using assms(3) by (simp add: run_waiter_def)
    from whenReadable_frame[OF this] show ?thesis
      using assms(1) adapter_inv_cong[of w' w] by simp
  next
    case (Foreign x)
    then show ?thesis using assms(1,3) by (simp add: run_waiter_def)
  qed
  show "resources w' = resources w"
  proof (cases cb)
    case (AcquireWaiter i)
    then show ?thesis using acquireWaiter_inv(2)[of w i w'] assms by (simp add: run_waiter_def)
  next
    case (WhenReadable i)
    then have "whenReadable i w = Some w'" using assms(3) by (simp add: run_waiter_def)
    from whenReadable_frame[OF this] show ?thesis by simp
  next
    case (Foreign x)
    then show ?thesis using assms(3) by (simp add: run_waiter_def)
  qed
qed

lemma run_waiters_inv:
  assumes "adapter_inv w"
    and "\<And>i r. AcquireWaiter i \<in> set cbs \<Longrightarrow> i \<notin> set (adapter_waiter_ids w r)"
    and "run_waiters cbs w = Some w'"
  shows "adapter_inv w'"
  using assms
proof (induction cbs arbitrary: w)
  case Nil
  then show ?case by simp
next
  case (Cons cb cbs)
  from Cons.prems(3) obtain w1 where s: "run_waiter cb w = Some w1"
    and t: "run_waiters cbs w1 = Some w'"
    by (auto split: Option.bind_splits)
  have h: "\<And>i r. cb = AcquireWaiter i \<Longrightarrow> i \<notin> set (adapter_waiter_ids w r)"
    using Cons.prems(2) by simp
  note r = run_waiter_inv[OF Cons.prems(1) h s]
  have "adapter_waiter_ids w1 = adapter_waiter_ids w"
    by (rule adapter_waiter_ids_cong) (rule waiters_on_resources, rule r(2))
  then show ?case
    using Cons.IH[OF r(1) _ t] Cons.prems(2) by simp
qed

lemma distinct_ids_filter:
  "distinct (concat (map f xs)) \<Longrightarrow> distinct (concat (map f (filter P xs)))"
  by (induction xs) auto

lemma ids_partition_disjoint:
  "distinct (concat (map f xs)) \<Longrightarrow>
   set (concat (map f (filter P xs))) \<inter> set (concat (map f (filter (\<lambda>x. \<not> P x) xs))) = {}"
  by (induction xs) auto

lemma tl_signal_inv:
  assumes "adapter_inv w" and "tl_signal r v w = Some w'"
  shows "adapter_inv w'"
proof (cases "resources w r")
  case None
  then show ?thesis using assms by (simp add: tl_signal_def)
next
  case (Some res)
  show ?thesis
  proof (cases "res_timeline res")
    case None
    then show ?thesis using assms Some by (simp add: tl_signal_def)
  next
    case t: (Some t)
    let ?P = "\<lambda>e::u64 \<times> waiter. fst e \<le> v"
    let ?f = "\<lambda>e::u64 \<times> waiter. case snd e of AcquireWaiter i \<Rightarrow> [i] | _ \<Rightarrow> []"
    let ?w0 = "set_timeline r res (t\<lparr>tl_waiters := filter (\<lambda>e. \<not> ?P e) (tl_waiters t)\<rparr>) w"
    have run: "run_waiters (map snd (filter ?P (tl_waiters t))) ?w0 = Some w'"
      using assms(2) Some t by (simp add: tl_signal_def)
    have wr: "waiters_on w r = tl_waiters t" by (simp add: waiters_on_def Some t)
    have wo: "waiters_on ?w0 = (waiters_on w)(r := filter (\<lambda>e. \<not> ?P e) (tl_waiters t))"
      by (rule ext) (simp add: waiters_on_def set_timeline_def)
    have live: "liveAcquireTimeline ?w0 = liveAcquireTimeline w"
      using expired_set_timeline[OF Some t]
      by (intro ext) (simp add: liveAcquireTimeline_def split: option.splits)
    have q: "syncPendingStates ?w0 = syncPendingStates w" "nextId ?w0 = nextId w"
      by (simp_all add: set_timeline_def)
    have tr: "waiters_tracked w" and d: "distinct (map fst (syncPendingStates w))"
      and dw: "\<And>r. distinct (adapter_waiter_ids w r)"
      using assms(1) by (simp_all add: adapter_inv_def)
    have ids0: "adapter_waiter_ids ?w0 r0 =
        (if r0 = r then concat (map ?f (filter (\<lambda>e. \<not> ?P e) (tl_waiters t)))
         else adapter_waiter_ids w r0)" for r0
      by (simp add: adapter_waiter_ids_def wo)
    have sub: "set (waiters_on ?w0 r0) \<subseteq> set (waiters_on w r0)" for r0
      by (auto simp: wo wr)
    have "waiters_tracked ?w0"
      using tr sub unfolding waiters_tracked_def live q by blast
    moreover have "distinct (adapter_waiter_ids ?w0 r0)" for r0
    proof (cases "r0 = r")
      case True
      have "distinct (concat (map ?f (tl_waiters t)))"
        using dw[of r] by (simp add: adapter_waiter_ids_def wr)
      then show ?thesis unfolding ids0 True by (simp add: distinct_ids_filter)
    next
      case False
      then show ?thesis unfolding ids0 using dw[of r0] by simp
    qed
    ultimately have inv0: "adapter_inv ?w0"
      using assms(1) by (simp add: adapter_inv_def adapter_ids_fresh_def q)
    have gone: "i \<notin> set (adapter_waiter_ids ?w0 r0)"
      if "AcquireWaiter i \<in> set (map snd (filter ?P (tl_waiters t)))" for i r0
    proof (cases "r0 = r")
      case True
      from that have "i \<in> set (concat (map ?f (filter ?P (tl_waiters t))))"
        by force
      moreover have "distinct (concat (map ?f (tl_waiters t)))"
        using dw[of r] by (simp add: adapter_waiter_ids_def wr)
      then have "set (concat (map ?f (filter ?P (tl_waiters t))))
          \<inter> set (concat (map ?f (filter (\<lambda>x. \<not> ?P x) (tl_waiters t)))) = {}"
        by (rule ids_partition_disjoint)
      ultimately have "i \<notin> set (concat (map ?f (filter (\<lambda>x. \<not> ?P x) (tl_waiters t))))"
        by blast
      then show ?thesis unfolding ids0 True by simp
    next
      case False
      show ?thesis
      proof
        assume "i \<in> set (adapter_waiter_ids ?w0 r0)"
        then obtain p where "(p, AcquireWaiter i) \<in> set (waiters_on w r0)"
          using False by (auto simp: ids0 set_adapter_waiter_ids)
        with tr obtain s where s: "(i, s) \<in> set (syncPendingStates w)"
          "liveAcquireTimeline w s = Some r0"
          unfolding waiters_tracked_def by blast
        from that obtain p' where "(p', AcquireWaiter i) \<in> set (waiters_on w r)"
          by (auto simp: wr)
        with tr obtain s' where s': "(i, s') \<in> set (syncPendingStates w)"
          "liveAcquireTimeline w s' = Some r"
          unfolding waiters_tracked_def by blast
        from d s(1) s'(1) have "s = s'" by (rule eq_key_imp_eq_value)
        with s(2) s'(2) False show False by simp
      qed
    qed
    from run_waiters_inv[OF inv0 gone run] show ?thesis .
  qed
qed

lemma signal_inv:
  assumes "adapter_inv w" and "signal p w = Some w'"
  shows "adapter_inv w'"
proof (cases "expired w p")
  case True
  then have "w' = logERR ''CDRMSyncPointState: signaling on an expired point'' w"
    using assms(2) by (simp add: signal_def)
  then show ?thesis using assms(1) adapter_inv_same_but_log[of w w'] by simp
next
  case False
  then obtain r where "tl_signal r (m_point p) w = Some w'"
    using assms(2) by (auto simp: signal_def split: Option.bind_splits)
  from tl_signal_inv[OF assms(1) this] show ?thesis .
qed

lemma addWaiter_WhenReadable_inv:
  assumes "adapter_inv w" and "addWaiter (WhenReadable i) p w = Some (ok, p', w')"
  shows "adapter_inv w'"
proof -
  note r = addWaiter_result[OF assms(2)]
  have live: "liveAcquireTimeline w' = liveAcquireTimeline w"
    by (rule ext) (simp add: liveAcquireTimeline_def r(1) split: option.splits)
  have m: "((q, AcquireWaiter j) \<in> set (waiters_on w' r0)) = ((q, AcquireWaiter j) \<in> set (waiters_on w r0))"
    for q j r0
    using addWaiter_waiters[OF assms(2)] by (auto split: if_splits)
  have ids: "adapter_waiter_ids w' r0 = adapter_waiter_ids w r0" for r0
    using addWaiter_waiters[OF assms(2)]
    by (auto simp: adapter_waiter_ids_def split: if_splits)
  show ?thesis
    using assms(1) by (simp add: adapter_inv_def waiters_tracked_def adapter_ids_fresh_def
        live m ids r)
qed

lemma setCommit_inv:
  assumes "adapter_inv w" and "setCommit reset w = Some w'"
  shows "adapter_inv w'"
proof -
  from assms(2) obtain w1 where p: "(if syncobj w then surfacePrecommit w else Some w) = Some w1"
    by (auto simp: setCommit_def split: Option.bind_splits)
  have i1: "adapter_inv w1"
    using p assms(1) surfacePrecommit_inv[of w w1] by (auto split: if_splits)
  define i where "i = nextId w1"
  define w2 where "w2 = w1\<lparr>surfPendingStates := surfPendingStates w1 @ [(i, pending w1)],
                 nextId := Suc i, pending := reset (pending w1)\<rparr>"
  define now where "now =
     (commitState (pending w1) w1)\<lparr>pending := reset (pending (commitState (pending w1) w1))\<rparr>"
  define direct where "direct =
     (\<not> updated_buffer (pending w1) \<or> (buffer (pending w1) = None \<and> texture (pending w1) = None))"
  define rej where "rej = dropPendingBuffer (w1\<lparr>pending := (pending w1)\<lparr>rejected := False\<rparr>\<rparr>)"
  have i2: "adapter_inv w2"
    by (rule adapter_inv_mono[OF i1]) (simp_all add: w2_def i_def)
  have i2': "adapter_inv (logERR m w2)" for m
    using i2 adapter_inv_same_but_log[of w2 "logERR m w2"] by simp
  have "adapter_inv now = adapter_inv w1"
    unfolding now_def by (rule adapter_inv_cong) simp_all
  with i1 have inow: "adapter_inv now" by simp
  have "adapter_inv rej = adapter_inv w1"
    unfolding rej_def by (rule adapter_inv_cong) (simp_all add: dropPendingBuffer_def)
  with i1 have irej: "adapter_inv rej" by simp
  have c: "setCommit reset w =
     (if rejected (pending w1)
       then Some rej
       else if direct
       then Some now
       else if updated_acquire (pending w1)
            then do {
              (ok, a, w3) \<leftarrow> addWaiter (WhenReadable i) (st_acquire (pending w1)) w2;
              Some (w3\<lparr>surfPendingStates :=
                         modify_state i (\<lambda>s. s\<lparr>st_acquire := a\<rparr>) (surfPendingStates w3)\<rparr>)
            }
            else do {
              b \<leftarrow> buffer (pending w1);
              if isSynchronous b then whenReadable i w2
              else if buf_type b = BUFFER_TYPE_DMABUF \<and> dmabuf_success b
              then (case exportSyncFile b of
                      Some syncFd \<Rightarrow> Some (doOnReadable syncFd (WhenReadable i) w2)
                    | None \<Rightarrow> whenReadable i w2)
              else whenReadable i
                     (logERR ''BUG THIS: wl_surface.commit: no acquire, non-dmabuf, async buffer, needs wait... this shouldn't happen'' w2)
            })"
    using p unfolding setCommit_def w2_def i_def now_def rej_def direct_def by (simp add: Let_def)
  show ?thesis
  proof (cases "rejected (pending w1)")
    case True
    then have "w' = rej"
      using assms(2) c by simp
    then show ?thesis using irej by simp
  next
    case nr: False
    show ?thesis
    proof (cases direct)
      case True
      then have "w' = now"
        using assms(2) c nr by simp
      then show ?thesis using inow by simp
    next
      case nq: False
      show ?thesis
      proof (cases "updated_acquire (pending w1)")
        case True
        then have "do {
              (ok, a, w3) \<leftarrow> addWaiter (WhenReadable i) (st_acquire (pending w1)) w2;
              Some (w3\<lparr>surfPendingStates :=
                         modify_state i (\<lambda>s. s\<lparr>st_acquire := a\<rparr>) (surfPendingStates w3)\<rparr>)
            } = Some w'"
          using assms(2) c nr nq by simp
        then obtain ok a w3 where
          a: "addWaiter (WhenReadable i) (st_acquire (pending w1)) w2 = Some (ok, a, w3)"
          and w': "w' = w3\<lparr>surfPendingStates :=
                         modify_state i (\<lambda>s. s\<lparr>st_acquire := a\<rparr>) (surfPendingStates w3)\<rparr>"
          by (auto split: Option.bind_splits)
        from addWaiter_WhenReadable_inv[OF i2 a] show ?thesis
          unfolding w' by (subst adapter_inv_cong[of _ w3]) simp_all
      next
        case False
        then have "do {
              b \<leftarrow> buffer (pending w1);
              if isSynchronous b then whenReadable i w2
              else if buf_type b = BUFFER_TYPE_DMABUF \<and> dmabuf_success b
              then (case exportSyncFile b of
                      Some syncFd \<Rightarrow> Some (doOnReadable syncFd (WhenReadable i) w2)
                    | None \<Rightarrow> whenReadable i w2)
              else whenReadable i
                     (logERR ''BUG THIS: wl_surface.commit: no acquire, non-dmabuf, async buffer, needs wait... this shouldn't happen'' w2)
            } = Some w'"
          using assms(2) c nr nq by simp
        then obtain b where b: "buffer (pending w1) = Some b"
          and r: "(if isSynchronous b then whenReadable i w2
              else if buf_type b = BUFFER_TYPE_DMABUF \<and> dmabuf_success b
              then (case exportSyncFile b of
                      Some syncFd \<Rightarrow> Some (doOnReadable syncFd (WhenReadable i) w2)
                    | None \<Rightarrow> whenReadable i w2)
              else whenReadable i
                     (logERR ''BUG THIS: wl_surface.commit: no acquire, non-dmabuf, async buffer, needs wait... this shouldn't happen'' w2)) = Some w'"
          by (auto split: Option.bind_splits)
        have wr: "adapter_inv w'" if "whenReadable i x = Some w'" "adapter_inv x" for x
        proof -
          have "adapter_inv w' = adapter_inv x"
            by (rule adapter_inv_cong) (simp_all add: whenReadable_frame[OF that(1)])
          with that(2) show ?thesis by simp
        qed
        have dr: "adapter_inv (doOnReadable fd cb w2)" for fd cb
        proof -
          have "adapter_inv (doOnReadable fd cb w2) = adapter_inv w2"
            by (rule adapter_inv_cong) (simp_all add: doOnReadable_def)
          with i2 show ?thesis by simp
        qed
        from r show ?thesis
          using wr[OF _ i2] wr[OF _ i2'] dr
          by (auto split: if_splits option.splits)
      qed
    qed
  qed
qed

section \<open>The order of application\<close>

text \<open>
  The surface's own callback keeps the order: when the later of two queued states becomes
  readable first, \<open>whenReadable\<close> applies the earlier one and then the later one, and the
  callback of the earlier state finds its state gone and does nothing.
\<close>

lemma whenReadable_expired:
  "state \<notin> set (map fst (surfPendingStates w)) \<Longrightarrow> whenReadable state w = Some w"
  by (simp add: whenReadable_def)

lemma whenReadable_later_first:
  assumes "\<not> surface_gone w" and "surfPendingStates w = [(i, s1), (j, s2)]" and "i \<noteq> j"
  shows "\<exists>w1. whenReadable j w = Some w1 \<and> applied w1 = applied w @ [s1, s2]
     \<and> surfPendingStates w1 = [] \<and> whenReadable i w1 = Some w1"
proof -
  from whenReadable_drains[of w "[(i, s1)]" j s2 "[]"] assms
  obtain w1 where "whenReadable j w = Some w1" "applied w1 = applied w @ [s1, s2]"
    "surfPendingStates w1 = []"
    by auto
  then show ?thesis by (auto simp: whenReadable_expired)
qed

text \<open>
  C1. The adapter's acquire waiter applies the state it captured and erases it from the
  adapter's queue without a look at the entries before it. With buffer 1 committed on
  timeline 1 and buffer 2 on timeline 2, a signal on timeline 2 followed by one on
  timeline 1 applies buffer 2 and then buffer 1, and buffer 1 ends as \<open>current\<close>.
\<close>

theorem acquireWaiter_applies_out_of_order:
  "map_option queued_points (ex_commit 1 1 ex_world \<bind> ex_commit 2 2) =
     Some [(1, Some (Some 1, 1), Some (Some 1, 2)), (2, Some (Some 2, 1), Some (Some 2, 2))]
   \<and> map_option applied_buffers ex_out_of_order = Some [Some 2, Some 1]
   \<and> map_option current_buffer ex_out_of_order = Some (Some 1)
   \<and> map_option queued_points ex_out_of_order = Some []"
  by code_simp

section \<open>A second releaser\<close>

text \<open>
  C3. The first \<open>createSyncRelease\<close> on a live point returns a releaser and sets
  \<open>m_releaseTaken\<close>. The second call on the same point writes a line to the error log and
  returns a releaser again.
\<close>

theorem createSyncRelease_second_call_returns_releaser:
  "\<not> expired ex_world ex_release_point
   \<and> createSyncRelease ex_release_point ex_world =
       Some (Some \<lparr>rel_timeline = Some 1, rel_point = 2\<rparr>,
             ex_release_point\<lparr>m_releaseTaken := True\<rparr>, ex_world)
   \<and> createSyncRelease (ex_release_point\<lparr>m_releaseTaken := True\<rparr>) ex_world =
       Some (Some \<lparr>rel_timeline = Some 1, rel_point = 2\<rparr>,
             ex_release_point\<lparr>m_releaseTaken := True\<rparr>,
             logERR ''CDRMSyncPointState: creating a sync releaser on an already created SyncRelease'' ex_world)"
  by (simp add: createSyncRelease_def expired_def ex_release_point_def new_CDRMSyncPointState_def
      ex_world_def deref_def timeline_ptr_def Let_def logERR_def)


end
